theory Spec2Isabelle
  imports Complex_Main "HOL-Library.Char_ord" "HOL-Library.List_Lexorder"
begin

section \<open>Data model of the trade-history analysis (app.py)\<close>

text \<open>
  One row of the broker export, restricted to the columns the matcher reads.
  Text columns are byte strings (UTF-8), numeric columns are rationals (the finite
  values after \<open>pd.to_numeric(...).fillna(0)\<close>, without floating-point rounding), and
  the execution time is the number of seconds since 1970-01-01T00:00 of the parsed,
  timezone-free timestamp.
\<close>

record execution =
  instrument :: string    \<comment> \<open>column "meigara-mei" (instrument name)\<close>
  kind :: string          \<comment> \<open>column "torihiki-kubun" (trade kind tag)\<close>
  dt :: int               \<comment> \<open>column "yakujo-nichiji" (execution time)\<close>
  side :: string          \<comment> \<open>column "baibai-kubun" (buy/sell)\<close>
  quantity :: rat         \<comment> \<open>column "yakujo-suryo" (executed quantity)\<close>
  price :: rat            \<comment> \<open>column "yakujo-tanka" (execution price)\<close>
  open_price :: rat       \<comment> \<open>column "tate-tanka" (price of the position being closed)\<close>
  profit :: rat           \<comment> \<open>column "jitsugen-soneki (enka)" (realized profit)\<close>

text \<open>A row of the table \<open>new_trades\<close>: an opening execution with its added
  column "nokori-suryo" (remaining quantity).\<close>

record new_trade =
  row :: execution
  remaining :: rat

text \<open>One dictionary appended to \<open>results\<close>; the holding time is \<open>None\<close> for
  \<open>pd.NaT\<close> and a number of seconds otherwise.\<close>

record closed_lot =
  cl_instrument :: string
  cl_position :: string
  cl_profit :: rat
  cl_holding_time :: "int option"
  cl_lots :: rat
  cl_trade_type :: string
  cl_month :: string
  cl_date :: string

section \<open>Strings\<close>

text \<open>Python's \<open>needle in haystack\<close> on strings: the needle occurs as a contiguous
  block. On UTF-8 byte strings this agrees with the test on code points.\<close>

fun starts_with :: "string \<Rightarrow> string \<Rightarrow> bool" where
  "starts_with [] ys = True"
| "starts_with (x # xs) [] = False"
| "starts_with (x # xs) (y # ys) = (x = y \<and> starts_with xs ys)"

fun str_contains :: "string \<Rightarrow> string \<Rightarrow> bool" where
  "str_contains needle [] = (needle = [])"
| "str_contains needle (y # ys) = (starts_with needle (y # ys) \<or> str_contains needle ys)"

text \<open>The keywords of the source, spelled as their UTF-8 bytes.\<close>

definition kw_new :: string where
  "kw_new = [CHR 0xE6, CHR 0x96, CHR 0xB0, CHR 0xE8, CHR 0xA6, CHR 0x8F]"

definition kw_settle :: string where
  "kw_settle = [CHR 0xE6, CHR 0xB1, CHR 0xBA, CHR 0xE6, CHR 0xB8, CHR 0x88]"

definition kw_losscut :: string where
  "kw_losscut = [CHR 0xE3, CHR 0x83, CHR 0xAD, CHR 0xE3, CHR 0x82, CHR 0xB9, CHR 0xE3, CHR 0x82,
     CHR 0xAB, CHR 0xE3, CHR 0x83, CHR 0x83, CHR 0xE3, CHR 0x83, CHR 0x88]"

definition kw_sell :: string where
  "kw_sell = [CHR 0xE5, CHR 0xA3, CHR 0xB2]"

definition label_long :: string where
  "label_long = [CHR 0xE3, CHR 0x83, CHR 0xAD, CHR 0xE3, CHR 0x83, CHR 0xB3, CHR 0xE3, CHR 0x82,
     CHR 0xB0]"

definition label_short :: string where
  "label_short = [CHR 0xE3, CHR 0x82, CHR 0xB7, CHR 0xE3, CHR 0x83, CHR 0xA7, CHR 0xE3, CHR 0x83,
     CHR 0xBC, CHR 0xE3, CHR 0x83, CHR 0x88]"

section \<open>Timestamps and the trading-day adjustment\<close>

definition hour :: "int \<Rightarrow> int" where
  "hour t = (t mod 86400) div 3600"

definition day_number :: "int \<Rightarrow> int" where
  "day_number t = t div 86400"

text \<open>\<open>get_adjusted_date\<close>: before 07:00 the timestamp moves back by one day.\<close>

definition get_adjusted_date :: "int \<Rightarrow> int" where
  "get_adjusted_date t = (if hour t < 7 then t - 86400 else t)"

text \<open>The proleptic Gregorian calendar date (year, month, day) of a day number, as
  \<open>strftime\<close> prints it.\<close>

definition civil_from_days :: "int \<Rightarrow> int \<times> int \<times> int" where
  "civil_from_days z0 =
     (let z = z0 + 719468;
          era = z div 146097;
          doe = z - era * 146097;
          yoe = (doe - doe div 1460 + doe div 36524 - doe div 146096) div 365;
          doy = doe - (365 * yoe + yoe div 4 - yoe div 100);
          mp = (5 * doy + 2) div 153;
          d = doy - (153 * mp + 2) div 5 + 1;
          m = (if mp < 10 then mp + 3 else mp - 9);
          y = yoe + era * 400 + (if m \<le> 2 then 1 else 0)
      in (y, m, d))"

definition digit :: "int \<Rightarrow> char" where
  "digit n = ''0123456789'' ! nat n"

definition pad2 :: "int \<Rightarrow> string" where
  "pad2 n = [digit (n div 10 mod 10), digit (n mod 10)]"

definition pad4 :: "int \<Rightarrow> string" where
  "pad4 n = [digit (n div 1000 mod 10), digit (n div 100 mod 10),
             digit (n div 10 mod 10), digit (n mod 10)]"

text \<open>\<open>strftime('%Y-%m')\<close> and \<open>strftime('%Y-%m-%d')\<close>.\<close>

definition strftime_ym :: "int \<Rightarrow> string" where
  "strftime_ym t = (case civil_from_days (day_number t) of
     (y, m, d) \<Rightarrow> pad4 y @ ''-'' @ pad2 m)"

definition strftime_ymd :: "int \<Rightarrow> string" where
  "strftime_ymd t = (case civil_from_days (day_number t) of
     (y, m, d) \<Rightarrow> pad4 y @ ''-'' @ pad2 m @ ''-'' @ pad2 d)"

section \<open>Lot classification\<close>

definition is_fx :: "string \<Rightarrow> bool" where
  "is_fx name = (str_contains ''JPY'' name \<or> str_contains ''USD'' name \<or> str_contains ''EUR'' name)"

definition lot_size :: "string \<Rightarrow> rat" where
  "lot_size name = (if is_fx name then 10000 else 1)"

definition trade_type_of :: "string \<Rightarrow> string" where
  "trade_type_of name = (if is_fx name then ''FX'' else ''CFD'')"

definition position_type :: "execution \<Rightarrow> string" where
  "position_type c = (if side c = kw_sell then label_long else label_short)"

section \<open>The position matcher (process\_trades)\<close>

text \<open>The dictionary appended for a slice of \<open>matched_qty\<close> taken from the opening
  row \<open>nt\<close> (lines 47 to 67), and the one appended for a closing execution that
  matched nothing (lines 73 to 88).\<close>

definition pro_rata_profit :: "execution \<Rightarrow> rat \<Rightarrow> rat" where
  "pro_rata_profit c matched_qty =
     (if quantity c \<noteq> 0 then (profit c / quantity c) * matched_qty else 0)"

definition matched_lot :: "execution \<Rightarrow> int \<Rightarrow> new_trade \<Rightarrow> rat \<Rightarrow> closed_lot" where
  "matched_lot c adjusted nt matched_qty =
     \<lparr> cl_instrument = instrument c,
       cl_position = position_type c,
       cl_profit = pro_rata_profit c matched_qty,
       cl_holding_time = Some (dt c - dt (row nt)),
       cl_lots = matched_qty / lot_size (instrument c),
       cl_trade_type = trade_type_of (instrument c),
       cl_month = strftime_ym adjusted,
       cl_date = strftime_ymd adjusted \<rparr>"

definition unmatched_lot :: "execution \<Rightarrow> int \<Rightarrow> closed_lot" where
  "unmatched_lot c adjusted =
     \<lparr> cl_instrument = instrument c,
       cl_position = position_type c,
       cl_profit = profit c,
       cl_holding_time = None,
       cl_lots = quantity c / lot_size (instrument c),
       cl_trade_type = trade_type_of (instrument c),
       cl_month = strftime_ym adjusted,
       cl_date = strftime_ymd adjusted \<rparr>"

text \<open>The variables the two loops share: the table \<open>new_trades\<close>, the list
  \<open>results\<close>, and the per-closing-execution locals \<open>closed_qty\<close> and
  \<open>is_matched\<close>.\<close>

record matcher_state =
  new_trades :: "new_trade list"
  results :: "closed_lot list"
  closed_qty :: rat
  is_matched :: bool

text \<open>The boolean mask of lines 35 to 40.\<close>

definition eligible :: "execution \<Rightarrow> new_trade \<Rightarrow> bool" where
  "eligible c nt \<longleftrightarrow>
     instrument (row nt) = instrument c \<and>
     price (row nt) = open_price c \<and>
     remaining nt > 0 \<and>
     dt (row nt) < dt c"

text \<open>\<open>potential_matches\<close> is a copy of the selected rows, each with its index label
  in \<open>new_trades\<close> (0, 1, ... after \<open>reset_index\<close>), in table order.\<close>

definition potential_matches :: "new_trade list \<Rightarrow> execution \<Rightarrow> (nat \<times> new_trade) list" where
  "potential_matches tbl c = filter (\<lambda>(i, nt). eligible c nt) (zip [0..<length tbl] tbl)"

text \<open>Line 69: \<open>new_trades.at[match_index, remaining] -= matched_qty\<close>.\<close>

definition subtract_remaining :: "nat \<Rightarrow> rat \<Rightarrow> new_trade list \<Rightarrow> new_trade list" where
  "subtract_remaining match_index matched_qty tbl =
     tbl[match_index := (tbl ! match_index)
           \<lparr> remaining := remaining (tbl ! match_index) - matched_qty \<rparr>]"

text \<open>The inner loop (lines 42 to 70). The quantity of the candidate is read from the
  copied row, the decrement is written to the live table at the row's index.\<close>

fun consume :: "execution \<Rightarrow> int \<Rightarrow> (nat \<times> new_trade) list \<Rightarrow> matcher_state \<Rightarrow> matcher_state" where
  "consume c adjusted [] s = s"
| "consume c adjusted ((match_index, nt) # rest) s =
     (if closed_qty s \<le> 0 then s
      else let matched_qty = min (closed_qty s) (remaining nt)
           in consume c adjusted rest
                (s\<lparr> is_matched := True,
                    results := results s @ [matched_lot c adjusted nt matched_qty],
                    new_trades := subtract_remaining match_index matched_qty (new_trades s),
                    closed_qty := closed_qty s - matched_qty \<rparr>))"

text \<open>The body of the outer loop for one closing execution (lines 31 to 88).\<close>

definition close_one :: "execution \<Rightarrow> matcher_state \<Rightarrow> matcher_state" where
  "close_one c s =
     (let adjusted = get_adjusted_date (dt c);
          s0 = s\<lparr> closed_qty := quantity c, is_matched := False \<rparr>;
          s1 = consume c adjusted (potential_matches (new_trades s0) c) s0
      in if \<not> is_matched s1
         then s1\<lparr> results := results s1 @ [unmatched_lot c adjusted] \<rparr>
         else s1)"

definition is_new :: "execution \<Rightarrow> bool" where
  "is_new e = str_contains kw_new (kind e)"

definition is_closed :: "execution \<Rightarrow> bool" where
  "is_closed e = (str_contains kw_settle (kind e) \<or> str_contains kw_losscut (kind e))"

text \<open>The table of opening executions, sorted by time, with the remaining quantity
  initialised to the executed quantity (lines 19, 25, 26); the closing executions in
  the order the outer loop visits them (lines 20, 30). In the model rows with equal
  times keep their input order; pandas does not fix their order, and no statement below
  depends on it.\<close>

definition initial_new_trades :: "execution list \<Rightarrow> new_trade list" where
  "initial_new_trades df =
     sort_key (\<lambda>nt. dt (row nt))
       (map (\<lambda>e. \<lparr> row = e, remaining = quantity e \<rparr>) (filter is_new df))"

definition closed_trades :: "execution list \<Rightarrow> execution list" where
  "closed_trades df = sort_key dt (filter is_closed df)"

definition initial_state :: "execution list \<Rightarrow> matcher_state" where
  "initial_state df =
     \<lparr> new_trades = initial_new_trades df, results = [], closed_qty = 0, is_matched = False \<rparr>"

text \<open>The state after the outer loop has handled the closing executions \<open>cs\<close>.\<close>

definition run_closes :: "execution list \<Rightarrow> matcher_state \<Rightarrow> matcher_state" where
  "run_closes cs s = foldl (\<lambda>s c. close_one c s) s cs"

definition matcher_run :: "execution list \<Rightarrow> matcher_state" where
  "matcher_run df = run_closes (closed_trades df) (initial_state df)"

definition process_trades :: "execution list \<Rightarrow> closed_lot list" where
  "process_trades df =
     (if filter is_closed df = [] then [] else results (matcher_run df))"

text \<open>The dictionaries appended to \<open>results\<close> while the closing execution \<open>c\<close> is
  handled in state \<open>s\<close>.\<close>

definition emitted :: "execution \<Rightarrow> matcher_state \<Rightarrow> closed_lot list" where
  "emitted c s = drop (length (results s)) (results (close_one c s))"

text \<open>The successive values of \<open>matched_qty\<close> in the inner loop (lines 43, 47, 70), as a
  function of the closing quantity and of the remaining quantities of the candidates in
  visiting order.\<close>

fun matched_qtys :: "rat \<Rightarrow> rat list \<Rightarrow> rat list" where
  "matched_qtys q [] = []"
| "matched_qtys q (r # rs) =
     (if q \<le> 0 then [] else min q r # matched_qtys (q - min q r) rs)"

text \<open>The remaining quantities of a list of candidates, as copied.\<close>

abbreviation rems :: "(nat \<times> new_trade) list \<Rightarrow> rat list" where
  "rems ms \<equiv> map (\<lambda>p. remaining (snd p)) ms"

text \<open>A row of \<open>new_trades\<close> is consistent when its remaining quantity does not exceed
  its executed quantity and is either non-negative or still the executed quantity.\<close>

definition lot_ok :: "new_trade \<Rightarrow> bool" where
  "lot_ok nt \<longleftrightarrow>
     remaining nt \<le> quantity (row nt) \<and> (0 \<le> remaining nt \<or> remaining nt = quantity (row nt))"

text \<open>The slices of a closing execution: the candidates the inner loop visits before it
  stops, each with the \<open>matched_qty\<close> taken from it (lines 42 to 47).\<close>

definition slices :: "execution \<Rightarrow> matcher_state \<Rightarrow> ((nat \<times> new_trade) \<times> rat) list" where
  "slices c s =
     zip (potential_matches (new_trades s) c)
         (matched_qtys (quantity c) (rems (potential_matches (new_trades s) c)))"

text \<open>The matched closed lots of a run in the order they are appended, each with the
  index (\<open>match_index\<close>) of the opening row it was taken from: the row whose remaining
  quantity line 69 decrements in the same iteration that appends the lot.\<close>

fun run_taken :: "execution list \<Rightarrow> matcher_state \<Rightarrow> (nat \<times> closed_lot) list" where
  "run_taken [] s = []"
| "run_taken (c # cs) s =
     map (\<lambda>((i, nt), m). (i, matched_lot c (get_adjusted_date (dt c)) nt m)) (slices c s)
     @ run_taken cs (close_one c s)"

text \<open>The raw quantity of a closed lot (its lot quantity times the lot size of its
  instrument), and the total raw quantity of the closed lots taken from row \<open>j\<close>.\<close>

definition matched_quantity :: "closed_lot \<Rightarrow> rat" where
  "matched_quantity l = cl_lots l * lot_size (cl_instrument l)"

definition taken_from :: "nat \<Rightarrow> (nat \<times> closed_lot) list \<Rightarrow> rat" where
  "taken_from j tr =
     sum_list (map (\<lambda>p. matched_quantity (snd p)) (filter (\<lambda>p. fst p = j) tr))"

section \<open>The aggregator (analyze\_summary)\<close>

text \<open>
  The ratio columns are float64 columns in which pandas produces and replaces the special
  values: a finite number, plus or minus infinity, or NaN. Division follows IEEE 754 as
  numpy applies it to a column (no exception on a zero divisor); every divisor of the
  source is a count or an absolute value, so a zero divisor is the positive zero.
\<close>

datatype fnum = Fin rat | PInf | NInf | NaN

fun fdiv :: "fnum \<Rightarrow> fnum \<Rightarrow> fnum" where
  "fdiv NaN y = NaN"
| "fdiv x NaN = NaN"
| "fdiv (Fin a) (Fin b) =
     (if b = 0 then (if a = 0 then NaN else if 0 < a then PInf else NInf) else Fin (a / b))"
| "fdiv (Fin a) PInf = Fin 0"
| "fdiv (Fin a) NInf = Fin 0"
| "fdiv PInf (Fin b) = (if 0 \<le> b then PInf else NInf)"
| "fdiv NInf (Fin b) = (if 0 \<le> b then NInf else PInf)"
| "fdiv PInf PInf = NaN"
| "fdiv PInf NInf = NaN"
| "fdiv NInf PInf = NaN"
| "fdiv NInf NInf = NaN"

fun fmul :: "fnum \<Rightarrow> fnum \<Rightarrow> fnum" where
  "fmul NaN y = NaN"
| "fmul x NaN = NaN"
| "fmul (Fin a) (Fin b) = Fin (a * b)"
| "fmul (Fin a) PInf = (if a = 0 then NaN else if 0 < a then PInf else NInf)"
| "fmul (Fin a) NInf = (if a = 0 then NaN else if 0 < a then NInf else PInf)"
| "fmul PInf (Fin b) = (if b = 0 then NaN else if 0 < b then PInf else NInf)"
| "fmul NInf (Fin b) = (if b = 0 then NaN else if 0 < b then NInf else PInf)"
| "fmul PInf PInf = PInf"
| "fmul PInf NInf = NInf"
| "fmul NInf PInf = NInf"
| "fmul NInf NInf = PInf"

fun fabs :: "fnum \<Rightarrow> fnum" where
  "fabs (Fin a) = Fin \<bar>a\<bar>"
| "fabs PInf = PInf"
| "fabs NInf = PInf"
| "fabs NaN = NaN"

fun fillna :: "fnum \<Rightarrow> fnum \<Rightarrow> fnum" where
  "fillna v NaN = v"
| "fillna v x = x"

text \<open>The columns of the matcher's output that the application groups by.\<close>

datatype column = ColInstrument | ColPosition | ColTradeType | ColMonth | ColDate

fun col_value :: "column \<Rightarrow> closed_lot \<Rightarrow> string" where
  "col_value ColInstrument l = cl_instrument l"
| "col_value ColPosition l = cl_position l"
| "col_value ColTradeType l = cl_trade_type l"
| "col_value ColMonth l = cl_month l"
| "col_value ColDate l = cl_date l"

definition group_key :: "column list \<Rightarrow> closed_lot \<Rightarrow> string list" where
  "group_key group_by_cols l = map (\<lambda>col. col_value col l) group_by_cols"

text \<open>\<open>groupby\<close> yields one group per key that occurs, in ascending key order.\<close>

definition group_keys :: "closed_lot list \<Rightarrow> column list \<Rightarrow> string list list" where
  "group_keys df group_by_cols = sort (remdups (map (group_key group_by_cols) df))"

definition group_rows :: "closed_lot list \<Rightarrow> column list \<Rightarrow> string list \<Rightarrow> closed_lot list" where
  "group_rows df group_by_cols k = filter (\<lambda>l. group_key group_by_cols l = k) df"

text \<open>Line 97: profit per lot, with infinities and NaN (a zero lot quantity) replaced
  by zero.\<close>

definition per_lot :: "closed_lot \<Rightarrow> rat" where
  "per_lot l = (if cl_lots l = 0 then 0 else cl_profit l / cl_lots l)"

text \<open>\<open>mean\<close> of a float column (NaN when empty) and of a duration column (NaT values
  are skipped; NaT when nothing is left).\<close>

definition fmean :: "rat list \<Rightarrow> fnum" where
  "fmean xs = (if xs = [] then NaN else Fin (sum_list xs / of_nat (length xs)))"

definition mean_time :: "int option list \<Rightarrow> rat option" where
  "mean_time xs =
     (let ts = concat (map (\<lambda>x. case x of None \<Rightarrow> [] | Some t \<Rightarrow> [t]) xs)
      in if ts = [] then None else Some (of_int (sum_list ts) / of_nat (length ts)))"

text \<open>
  The profit column of a frame of closed lots is an int64 column or a float64 column.
  \<open>pd.DataFrame(results)\<close> (line 90) makes it int64 when every profit in \<open>results\<close> is
  an integer, that is when the profit column of the export was parsed as int64 and every
  closed lot was appended by the fallback, which copies the value (line 82); the profit
  of a matched slice is the result of a division and so a float (line 56). A frame
  selected from it keeps the type, and so does \<open>pd.to_numeric\<close> (line 96).
\<close>

datatype dtype = Int64 | Float64

definition results_dtype :: "dtype \<Rightarrow> closed_lot list \<Rightarrow> dtype" where
  "results_dtype source_dtype ls =
     (if source_dtype = Int64 \<and> list_all (\<lambda>l. cl_holding_time l = None) ls
      then Int64 else Float64)"

text \<open>Arithmetic on an int64 column wraps around modulo \<open>2 ^ 64\<close>; the values of such a
  column are integers from \<open>- 2 ^ 63\<close> to \<open>2 ^ 63 - 1\<close>. A float64 column is summed
  without rounding in the model.\<close>

definition wrap64 :: "int \<Rightarrow> int" where
  "wrap64 n = (n + 2 ^ 63) mod 2 ^ 64 - 2 ^ 63"

fun col_sum :: "dtype \<Rightarrow> rat list \<Rightarrow> rat" where
  "col_sum Float64 xs = sum_list xs"
| "col_sum Int64 xs = of_int (wrap64 (sum_list (map floor xs)))"

text \<open>\<open>abs\<close> of a column (line 113): on an int64 column the absolute value of
  \<open>- 2 ^ 63\<close> wraps around to itself.\<close>

fun col_abs :: "dtype \<Rightarrow> fnum \<Rightarrow> fnum" where
  "col_abs Int64 (Fin a) = Fin (of_int (wrap64 \<bar>floor a\<bar>))"
| "col_abs ty x = fabs x"

text \<open>Lines 111 and 112: the sums of a second \<open>groupby\<close> over the winning (losing) rows,
  looked up by \<open>reindex\<close> at the key of the summary row: absent (NaN) when the group has
  no such row.\<close>

definition grouped_sum :: "dtype \<Rightarrow> closed_lot list \<Rightarrow> column list \<Rightarrow> string list \<Rightarrow> fnum" where
  "grouped_sum ty rows group_by_cols k =
     (let g = group_rows rows group_by_cols k
      in if g = [] then NaN else Fin (col_sum ty (map cl_profit g)))"

text \<open>The column of total losses stays an int64 column when the frame is int64 and
  \<open>reindex\<close> finds a sum for every key, so that no NaN is filled in; otherwise it is a
  float64 column.\<close>

definition loss_column_dtype :: "dtype \<Rightarrow> closed_lot list \<Rightarrow> column list \<Rightarrow> dtype" where
  "loss_column_dtype ty df group_by_cols =
     (if ty = Int64 \<and>
         list_all (\<lambda>k. group_rows (filter (\<lambda>l. cl_profit l < 0) df) group_by_cols k \<noteq> [])
           (group_keys df group_by_cols)
      then Int64 else Float64)"

record summary_row =
  sr_key :: "string list"
  sr_total :: rat                 \<comment> \<open>total profit\<close>
  sr_count :: nat                 \<comment> \<open>number of trades\<close>
  sr_wins :: nat
  sr_losses :: nat
  sr_win_time :: "rat option"     \<comment> \<open>mean holding time of the winning trades\<close>
  sr_loss_time :: "rat option"
  sr_lot_profit :: fnum           \<comment> \<open>mean profit per lot of the winning trades\<close>
  sr_lot_loss :: fnum
  sr_win_rate :: fnum
  sr_gross_profit :: fnum
  sr_gross_loss :: fnum
  sr_pf :: fnum
  sr_avg_win :: fnum
  sr_avg_loss :: fnum
  sr_rr :: fnum

text \<open>The summary row of the key \<open>k\<close> (lines 99 to 116), for a frame whose profit
  column has the type \<open>ty\<close>.\<close>

definition summarise ::
  "dtype \<Rightarrow> closed_lot list \<Rightarrow> column list \<Rightarrow> string list \<Rightarrow> summary_row" where
  "summarise ty df group_by_cols k =
     (let g = group_rows df group_by_cols k;
          won = filter (\<lambda>l. cl_profit l > 0) g;
          lost = filter (\<lambda>l. cl_profit l < 0) g;
          n = length g;
          wins = length won;
          losses = length lost;
          win_rate = fillna (Fin 0) (fmul (fdiv (Fin (of_nat wins)) (Fin (of_nat n))) (Fin 100));
          gross_profit = fillna (Fin 0)
             (grouped_sum ty (filter (\<lambda>l. cl_profit l > 0) df) group_by_cols k);
          gross_loss = fillna (Fin 0)
             (grouped_sum ty (filter (\<lambda>l. cl_profit l < 0) df) group_by_cols k);
          pf = fillna PInf
             (fdiv gross_profit (col_abs (loss_column_dtype ty df group_by_cols) gross_loss));
          avg_win = fillna (Fin 0) (fdiv gross_profit (Fin (of_nat wins)));
          avg_loss = fillna (Fin 0) (fdiv gross_loss (Fin (of_nat losses)));
          rr = fillna PInf (fdiv avg_win (fabs avg_loss))
      in \<lparr> sr_key = k,
           sr_total = col_sum ty (map cl_profit g),
           sr_count = n,
           sr_wins = wins,
           sr_losses = losses,
           sr_win_time = (if won \<noteq> [] then mean_time (map cl_holding_time won) else None),
           sr_loss_time = (if lost \<noteq> [] then mean_time (map cl_holding_time lost) else None),
           sr_lot_profit = fmean (map per_lot won),
           sr_lot_loss = fmean (map per_lot lost),
           sr_win_rate = win_rate,
           sr_gross_profit = gross_profit,
           sr_gross_loss = gross_loss,
           sr_pf = pf,
           sr_avg_win = avg_win,
           sr_avg_loss = avg_loss,
           sr_rr = rr \<rparr>)"

text \<open>\<open>analyze_summary\<close>, for a frame whose profit column has the type \<open>ty\<close> and a
  list of group columns as the application passes it (one or two columns; pandas refuses
  an empty list).\<close>

definition analyze_summary ::
  "dtype \<Rightarrow> closed_lot list \<Rightarrow> column list \<Rightarrow> summary_row list" where
  "analyze_summary ty df group_by_cols =
     (if df = [] then []
      else map (summarise ty df group_by_cols) (group_keys df group_by_cols))"

section \<open>Example rows\<close>

text \<open>Rows used to evaluate the definitions on concrete inputs.\<close>

definition mk_exec ::
  "string \<Rightarrow> string \<Rightarrow> int \<Rightarrow> string \<Rightarrow> rat \<Rightarrow> rat \<Rightarrow> rat \<Rightarrow> rat \<Rightarrow> execution" where
  "mk_exec i k t sd q p op pr =
     \<lparr> instrument = i, kind = k, dt = t, side = sd, quantity = q, price = p,
       open_price = op, profit = pr \<rparr>"

text \<open>An opening buy of USDJPY at 110, a closing sell of USDJPY for a position opened
  at 110, and a closing sell of an instrument that is not a currency pair.\<close>

definition ex_open :: "int \<Rightarrow> rat \<Rightarrow> execution" where
  "ex_open t q = mk_exec ''USDJPY'' kw_new t ''B'' q 110 0 0"

definition ex_close :: "int \<Rightarrow> rat \<Rightarrow> rat \<Rightarrow> execution" where
  "ex_close t q pr = mk_exec ''USDJPY'' kw_settle t kw_sell q 111 110 pr"

definition ex_other :: "int \<Rightarrow> rat \<Rightarrow> rat \<Rightarrow> execution" where
  "ex_other t q pr = mk_exec ''GOLD'' kw_settle t kw_sell q 111 110 pr"

text \<open>A closed lot of the given instrument, profit and lot quantity.\<close>

definition ex_lot :: "string \<Rightarrow> rat \<Rightarrow> rat \<Rightarrow> closed_lot" where
  "ex_lot name p l =
     \<lparr> cl_instrument = name, cl_position = label_long, cl_profit = p,
       cl_holding_time = Some 7200, cl_lots = l, cl_trade_type = trade_type_of name,
       cl_month = ''2024-02'', cl_date = ''2024-02-29'' \<rparr>"

section \<open>Properties of the matcher\<close>

subsection \<open>The inner loop in terms of the matched quantities\<close>

lemma consume_results:
  "results (consume c a ms s) =
     results s @ map (\<lambda>(p, m). matched_lot c a (snd p) m)
                     (zip ms (matched_qtys (closed_qty s) (rems ms)))"
  by (induction ms arbitrary: s) (auto simp: Let_def)

lemma consume_closed_qty:
  "closed_qty (consume c a ms s) = closed_qty s - sum_list (matched_qtys (closed_qty s) (rems ms))"
  by (induction ms arbitrary: s) (auto simp: Let_def)

lemma consume_is_matched:
  "is_matched (consume c a ms s) = (is_matched s \<or> matched_qtys (closed_qty s) (rems ms) \<noteq> [])"
  by (induction ms arbitrary: s) (auto simp: Let_def)

lemma consume_new_trades:
  "new_trades (consume c a ms s) =
     fold (\<lambda>(i, m). subtract_remaining i m)
          (zip (map fst ms) (matched_qtys (closed_qty s) (rems ms))) (new_trades s)"
  by (induction ms arbitrary: s) (auto simp: Let_def)

lemma matched_qtys_length: "length (matched_qtys q rs) \<le> length rs"
  by (induction rs arbitrary: q) auto

lemma matched_qtys_pos:
  "\<forall>r\<in>set rs. 0 < r \<Longrightarrow> \<forall>m\<in>set (matched_qtys q rs). 0 < m"
  by (induction rs arbitrary: q) auto




subsection \<open>The candidates of a closing execution\<close>

lemma filter_enumerate_in:
  "(i, x) \<in> set (filter P (List.enumerate n xs)) \<Longrightarrow> n \<le> i \<and> i < n + length xs \<and> xs ! (i - n) = x \<and> P (i, x)"
  by (auto simp: in_set_enumerate_eq)

lemma potential_matches_enumerate:
  "potential_matches tbl c = filter (\<lambda>(i, nt). eligible c nt) (List.enumerate 0 tbl)"
  by (simp add: potential_matches_def enumerate_eq_zip)

lemma potential_matches_in:
  "(i, nt) \<in> set (potential_matches tbl c) \<Longrightarrow> i < length tbl \<and> tbl ! i = nt \<and> eligible c nt"
  using filter_enumerate_in[of i nt "\<lambda>(i, nt). eligible c nt" 0 tbl]
  by (simp add: potential_matches_enumerate)

lemma potential_matches_distinct: "distinct (map fst (potential_matches tbl c))"
  unfolding potential_matches_enumerate
  by (rule distinct_map_filter) simp

lemma potential_matches_rems_pos: "\<forall>r\<in>set (rems (potential_matches tbl c)). 0 < r"
  using potential_matches_in by (fastforce simp: eligible_def)


lemma filter_enumerate_first:
  "i < length xs \<Longrightarrow> P (xs ! i) \<Longrightarrow> \<forall>k<i. \<not> P (xs ! k) \<Longrightarrow>
   \<exists>rest. filter (\<lambda>(j, x). P x) (List.enumerate n xs) = (n + i, xs ! i) # rest"
proof (induction xs arbitrary: n i)
  case Nil then show ?case by simp
next
  case (Cons x xs)
  show ?case
  proof (cases i)
    case 0 then show ?thesis using Cons.prems by simp
  next
    case (Suc i')
    have nx: "\<not> P x" using Cons.prems(3) Suc by force
    have "\<exists>rest. filter (\<lambda>(j, x). P x) (List.enumerate (Suc n) xs) = (Suc n + i', xs ! i') # rest"
      using Cons.prems Suc by (intro Cons.IH) auto
    then show ?thesis using nx Suc by simp
  qed
qed

lemma potential_matches_first:
  "i < length tbl \<Longrightarrow> eligible c (tbl ! i) \<Longrightarrow> \<forall>k<i. \<not> eligible c (tbl ! k) \<Longrightarrow>
   \<exists>rest. potential_matches tbl c = (i, tbl ! i) # rest"
  using filter_enumerate_first[of i tbl "eligible c" 0]
  by (simp add: potential_matches_enumerate)

subsection \<open>One closing execution\<close>

lemma close_one_results:
  "results (close_one c s) = results s @ emitted c s"
  by (simp add: emitted_def close_one_def Let_def consume_results)

lemma emitted_eq:
  "emitted c s =
     (let pm = potential_matches (new_trades s) c;
          qs = matched_qtys (quantity c) (rems pm)
      in if qs = [] then [unmatched_lot c (get_adjusted_date (dt c))]
         else map (\<lambda>(p, m). matched_lot c (get_adjusted_date (dt c)) (snd p) m) (zip pm qs))"
  by (simp add: emitted_def close_one_def Let_def consume_results consume_is_matched)

lemma close_one_new_trades:
  "new_trades (close_one c s) =
     fold (\<lambda>(i, m). subtract_remaining i m)
          (zip (map fst (potential_matches (new_trades s) c))
               (matched_qtys (quantity c) (rems (potential_matches (new_trades s) c))))
          (new_trades s)"
  by (simp add: close_one_def Let_def consume_new_trades)


lemma emitted_lots:
  "map cl_lots (emitted c s) =
     (let qs = matched_qtys (quantity c) (rems (potential_matches (new_trades s) c))
      in map (\<lambda>m. m / lot_size (instrument c)) (if qs = [] then [quantity c] else qs))"
proof -
  let ?pm = "potential_matches (new_trades s) c"
  let ?qs = "matched_qtys (quantity c) (rems ?pm)"
  let ?a = "get_adjusted_date (dt c)"
  have len: "length ?qs \<le> length ?pm"
    using matched_qtys_length[of "quantity c" "rems ?pm"] by simp
  have "map cl_lots (map (\<lambda>(p, m). matched_lot c ?a (snd p) m) (zip ?pm ?qs))
          = map (\<lambda>m. m / lot_size (instrument c)) (map snd (zip ?pm ?qs))"
    by (simp add: matched_lot_def case_prod_unfold)
  also have "map snd (zip ?pm ?qs) = ?qs"
    using len by (simp add: map_snd_zip_take)
  finally show ?thesis
    by (simp add: emitted_eq Let_def unmatched_lot_def)
qed


lemma lot_size_nonzero: "lot_size name \<noteq> 0"
  by (simp add: lot_size_def)


subsection \<open>The table after a closing execution\<close>

lemma matched_qtys_nonpos: "q \<le> 0 \<Longrightarrow> matched_qtys q rs = []"
  by (cases rs) auto

lemma matched_qtys_prefix:
  "\<forall>r\<in>set rs. 0 < r \<Longrightarrow> q \<le> sum_list rs \<Longrightarrow> matched_qtys q (rs @ rs') = matched_qtys q rs"
proof (induction rs arbitrary: q)
  case Nil
  then show ?case by (simp add: matched_qtys_nonpos)
next
  case (Cons r rs)
  have nn: "0 \<le> sum_list rs" using Cons.prems(1) by (simp add: sum_list_nonneg less_imp_le)
  have "q - min q r \<le> sum_list rs" using Cons.prems(2) nn by (auto simp: min_def)
  then have "matched_qtys (q - min q r) (rs @ rs') = matched_qtys (q - min q r) rs"
    using Cons by simp
  then show ?case by simp
qed

lemma length_subtract_remaining [simp]: "length (subtract_remaining i m tbl) = length tbl"
  by (simp add: subtract_remaining_def)

lemma nth_subtract_remaining_other: "j \<noteq> i \<Longrightarrow> subtract_remaining i m tbl ! j = tbl ! j"
  by (simp add: subtract_remaining_def)

lemma map_row_subtract_remaining [simp]: "map row (subtract_remaining i m tbl) = map row tbl"
proof (cases "i < length tbl")
  case True
  then show ?thesis
    by (simp add: subtract_remaining_def map_update list_update_same_conv)
next
  case False
  then show ?thesis by (simp add: subtract_remaining_def list_update_beyond)
qed

lemma length_fold_subtract [simp]:
  "length (fold (\<lambda>(i, m). subtract_remaining i m) ps tbl) = length tbl"
  by (induction ps arbitrary: tbl) auto

lemma nth_fold_subtract:
  "j \<notin> fst ` set ps \<Longrightarrow> fold (\<lambda>(i, m). subtract_remaining i m) ps tbl ! j = tbl ! j"
  by (induction ps arbitrary: tbl) (auto simp: nth_subtract_remaining_other)

lemma map_row_fold_subtract [simp]:
  "map row (fold (\<lambda>(i, m). subtract_remaining i m) ps tbl) = map row tbl"
  by (induction ps arbitrary: tbl) auto

lemma length_close_one [simp]: "length (new_trades (close_one c s)) = length (new_trades s)"
  by (simp add: close_one_new_trades)

lemma map_row_close_one [simp]: "map row (new_trades (close_one c s)) = map row (new_trades s)"
  by (simp add: close_one_new_trades)

lemma potential_matches_split:
  "potential_matches tbl c =
     filter (\<lambda>(k, nt). eligible c nt) (List.enumerate 0 (take j tbl)) @
     filter (\<lambda>(k, nt). eligible c nt) (List.enumerate (length (take j tbl)) (drop j tbl))"
proof -
  have "List.enumerate 0 tbl = List.enumerate 0 (take j tbl @ drop j tbl)" by simp
  also have "\<dots> = List.enumerate 0 (take j tbl) @ List.enumerate (0 + length (take j tbl)) (drop j tbl)"
    by (rule enumerate_append_eq)
  finally show ?thesis by (simp add: potential_matches_enumerate)
qed

subsection \<open>The remaining quantities over a run\<close>

lemma run_closes_Nil [simp]: "run_closes [] s = s"
  by (simp add: run_closes_def)

lemma run_closes_Cons [simp]: "run_closes (c # cs) s = run_closes cs (close_one c s)"
  by (simp add: run_closes_def)

lemma lot_ok_subtract:
  assumes "i < length tbl" and "\<forall>nt\<in>set tbl. lot_ok nt"
    and "0 < m" and "m \<le> remaining (tbl ! i)"
  shows "\<forall>nt\<in>set (subtract_remaining i m tbl). lot_ok nt"
proof
  fix nt assume "nt \<in> set (subtract_remaining i m tbl)"
  then have "nt = (tbl ! i)\<lparr>remaining := remaining (tbl ! i) - m\<rparr> \<or> nt \<in> set tbl"
    using set_update_subset_insert[of tbl i] by (auto simp: subtract_remaining_def)
  moreover have "lot_ok (tbl ! i)" using assms(1,2) by simp
  then have "lot_ok ((tbl ! i)\<lparr>remaining := remaining (tbl ! i) - m\<rparr>)"
    using assms(3,4) by (auto simp: lot_ok_def)
  ultimately show "lot_ok nt" using assms(2) by auto
qed

lemma consume_lot_ok:
  assumes "distinct (map fst ms)"
    and "\<forall>(i, nt)\<in>set ms. i < length (new_trades s) \<and> new_trades s ! i = nt \<and> 0 < remaining nt"
    and "\<forall>nt\<in>set (new_trades s). lot_ok nt"
  shows "\<forall>nt\<in>set (new_trades (consume c a ms s)). lot_ok nt"
  using assms
proof (induction ms arbitrary: s)
  case Nil
  then show ?case by simp
next
  case (Cons p ms)
  obtain i nt where p: "p = (i, nt)" by (cases p)
  show ?case
  proof (cases "closed_qty s \<le> 0")
    case True
    then show ?thesis using Cons.prems(3) by (simp add: p)
  next
    case False
    let ?m = "min (closed_qty s) (remaining nt)"
    let ?s' = "s\<lparr> is_matched := True,
                   results := results s @ [matched_lot c a nt ?m],
                   new_trades := subtract_remaining i ?m (new_trades s),
                   closed_qty := closed_qty s - ?m \<rparr>"
    have i: "i < length (new_trades s)" "new_trades s ! i = nt" "0 < remaining nt"
      using Cons.prems(2) by (auto simp: p)
    have m: "0 < ?m" "?m \<le> remaining (new_trades s ! i)"
      using False i by auto
    have ok: "\<forall>x\<in>set (new_trades ?s'). lot_ok x"
      using lot_ok_subtract[OF i(1) Cons.prems(3) m] by simp
    have dist: "distinct (map fst ms)" using Cons.prems(1) by simp
    have snap: "\<forall>(j, x)\<in>set ms. j < length (new_trades ?s') \<and> new_trades ?s' ! j = x
                  \<and> 0 < remaining x"
    proof (clarify)
      fix j x assume jx: "(j, x) \<in> set ms"
      then have "j \<noteq> i" using Cons.prems(1) by (force simp: p)
      moreover have "j < length (new_trades s) \<and> new_trades s ! j = x \<and> 0 < remaining x"
        using Cons.prems(2) jx by auto
      ultimately show "j < length (new_trades ?s') \<and> new_trades ?s' ! j = x \<and> 0 < remaining x"
        by (simp add: nth_subtract_remaining_other)
    qed
    have "\<forall>x\<in>set (new_trades (consume c a ms ?s')). lot_ok x"
      using Cons.IH[OF dist snap ok] .
    then show ?thesis using False by (simp add: p Let_def)
  qed
qed

lemma close_one_lot_ok:
  assumes "\<forall>nt\<in>set (new_trades s). lot_ok nt"
  shows "\<forall>nt\<in>set (new_trades (close_one c s)). lot_ok nt"
proof -
  let ?s0 = "s\<lparr> closed_qty := quantity c, is_matched := False \<rparr>"
  let ?pm = "potential_matches (new_trades ?s0) c"
  have snap: "\<forall>(i, nt)\<in>set ?pm. i < length (new_trades ?s0) \<and> new_trades ?s0 ! i = nt
                \<and> 0 < remaining nt"
    using potential_matches_in[of _ _ "new_trades ?s0" c] by (auto simp: eligible_def)
  have "\<forall>nt\<in>set (new_trades (consume c (get_adjusted_date (dt c)) ?pm ?s0)). lot_ok nt"
    using assms by (intro consume_lot_ok[OF potential_matches_distinct snap]) simp
  then show ?thesis by (simp add: close_one_def Let_def)
qed

lemma run_closes_lot_ok:
  "\<forall>nt\<in>set (new_trades s). lot_ok nt \<Longrightarrow> \<forall>nt\<in>set (new_trades (run_closes cs s)). lot_ok nt"
proof (induction cs arbitrary: s)
  case Nil
  then show ?case by simp
next
  case (Cons c cs)
  have "\<forall>nt\<in>set (new_trades (close_one c s)). lot_ok nt"
    using Cons.prems by (rule close_one_lot_ok)
  then have "\<forall>nt\<in>set (new_trades (run_closes cs (close_one c s))). lot_ok nt"
    by (rule Cons.IH)
  then show ?case by simp
qed

lemma map_row_run_closes [simp]: "map row (new_trades (run_closes cs s)) = map row (new_trades s)"
  by (induction cs arbitrary: s) simp_all

lemma initial_lot_ok: "\<forall>nt\<in>set (new_trades (initial_state df)). lot_ok nt"
  by (auto simp: initial_state_def initial_new_trades_def lot_ok_def)

text \<open>What a row loses while a closing execution is handled is the sum of the matched
  quantities of the slices taken from it.\<close>

lemma remaining_fold_subtract:
  "j < length tbl \<Longrightarrow>
   remaining (fold (\<lambda>(i, m). subtract_remaining i m) ps tbl ! j)
     = remaining (tbl ! j) - sum_list (map snd (filter (\<lambda>p. fst p = j) ps))"
proof (induction ps arbitrary: tbl)
  case Nil
  then show ?case by simp
next
  case (Cons p ps)
  obtain i m where p: "p = (i, m)" by (cases p)
  have len: "j < length (subtract_remaining i m tbl)" using Cons.prems by simp
  have step: "remaining (subtract_remaining i m tbl ! j)
                = remaining (tbl ! j) - (if i = j then m else 0)"
    using Cons.prems by (simp add: subtract_remaining_def)
  show ?case
    using Cons.IH[OF len] step by (simp add: p)
qed

lemma close_one_taken:
  assumes "j < length (new_trades s)"
  shows "remaining (new_trades s ! j) - remaining (new_trades (close_one c s) ! j)
     = sum_list (map snd (filter (\<lambda>p. fst p = j)
         (zip (map fst (potential_matches (new_trades s) c))
              (matched_qtys (quantity c) (rems (potential_matches (new_trades s) c))))))"
  using remaining_fold_subtract[OF assms] by (simp add: close_one_new_trades)

lemma run_closes_sorted:
  "sorted (map (\<lambda>nt. dt (row nt)) (new_trades (run_closes cs (initial_state df))))"
proof -
  have "map row (new_trades (run_closes cs (initial_state df))) = map row (initial_new_trades df)"
    by (simp add: initial_state_def)
  then have "map dt (map row (new_trades (run_closes cs (initial_state df))))
               = map dt (map row (initial_new_trades df))"
    by (rule arg_cong)
  then have "map (\<lambda>nt. dt (row nt)) (new_trades (run_closes cs (initial_state df)))
               = map (\<lambda>nt. dt (row nt)) (initial_new_trades df)"
    by (simp only: map_map comp_def)
  then show ?thesis by (simp add: initial_new_trades_def)
qed

subsection \<open>Substring test\<close>

lemma starts_with_iff: "starts_with xs ys \<longleftrightarrow> (\<exists>ss. ys = xs @ ss)"
  by (induction xs ys rule: starts_with.induct) auto

lemma str_contains_iff: "str_contains needle ys \<longleftrightarrow> (\<exists>ps ss. ys = ps @ needle @ ss)"
proof (induction ys)
  case Nil
  then show ?case by auto
next
  case (Cons y ys)
  have "(\<exists>ps ss. y # ys = ps @ needle @ ss)
          \<longleftrightarrow> (\<exists>ss. y # ys = needle @ ss) \<or> (\<exists>ps ss. ys = ps @ needle @ ss)"
  proof
    assume "\<exists>ps ss. y # ys = ps @ needle @ ss"
    then obtain ps ss where e: "y # ys = ps @ needle @ ss" by blast
    show "(\<exists>ss. y # ys = needle @ ss) \<or> (\<exists>ps ss. ys = ps @ needle @ ss)"
    proof (cases ps)
      case Nil
      then show ?thesis using e by auto
    next
      case (Cons p ps')
      then have "ys = ps' @ needle @ ss" using e by simp
      then show ?thesis by blast
    qed
  next
    assume "(\<exists>ss. y # ys = needle @ ss) \<or> (\<exists>ps ss. ys = ps @ needle @ ss)"
    then show "\<exists>ps ss. y # ys = ps @ needle @ ss"
    proof
      assume "\<exists>ss. y # ys = needle @ ss"
      then obtain ss where "y # ys = [] @ needle @ ss" by auto
      then show ?thesis by blast
    next
      assume "\<exists>ps ss. ys = ps @ needle @ ss"
      then obtain ps ss where "y # ys = (y # ps) @ needle @ ss" by auto
      then show ?thesis by blast
    qed
  qed
  then show ?case using Cons.IH by (simp add: starts_with_iff)
qed

subsection \<open>The closed lots of a run\<close>

lemma emitted_in_cases:
  assumes "l \<in> set (emitted c s)"
  shows "l = unmatched_lot c (get_adjusted_date (dt c))
       \<or> (\<exists>nt m. l = matched_lot c (get_adjusted_date (dt c)) nt m)"
proof -
  let ?pm = "potential_matches (new_trades s) c"
  let ?qs = "matched_qtys (quantity c) (rems ?pm)"
  show ?thesis
  proof (cases "?qs = []")
    case True
    then show ?thesis using assms by (simp add: emitted_eq)
  next
    case False
    then have "l \<in> (\<lambda>(p, m). matched_lot c (get_adjusted_date (dt c)) (snd p) m) ` set (zip ?pm ?qs)"
      using assms by (simp add: emitted_eq Let_def)
    then show ?thesis by auto
  qed
qed

lemma emitted_fields:
  assumes "l \<in> set (emitted c s)"
  shows "cl_instrument l = instrument c \<and> cl_position l = position_type c
       \<and> cl_trade_type l = trade_type_of (instrument c)
       \<and> cl_month l = strftime_ym (get_adjusted_date (dt c))
       \<and> cl_date l = strftime_ymd (get_adjusted_date (dt c))"
  using emitted_in_cases[OF assms]
proof
  assume "l = unmatched_lot c (get_adjusted_date (dt c))"
  then show ?thesis by (simp add: unmatched_lot_def)
next
  assume "\<exists>nt m. l = matched_lot c (get_adjusted_date (dt c)) nt m"
  then obtain nt m where "l = matched_lot c (get_adjusted_date (dt c)) nt m" by blast
  then show ?thesis by (simp add: matched_lot_def)
qed

lemma run_closes_results:
  assumes "\<And>c s l. c \<in> set cs \<Longrightarrow> l \<in> set (emitted c s) \<Longrightarrow> P c l"
    and "l \<in> set (results (run_closes cs s))"
  shows "l \<in> set (results s) \<or> (\<exists>c\<in>set cs. P c l)"
  using assms
proof (induction cs arbitrary: s)
  case Nil
  then show ?case by simp
next
  case (Cons c cs)
  have "l \<in> set (results (close_one c s)) \<or> (\<exists>c'\<in>set cs. P c' l)"
    using Cons.prems by (intro Cons.IH) auto
  then show ?case
    using Cons.prems(1)[of c l s] by (auto simp: close_one_results)
qed

lemma process_trades_results:
  assumes "\<And>c s l. l \<in> set (emitted c s) \<Longrightarrow> P c l"
    and "l \<in> set (process_trades df)"
  shows "\<exists>c\<in>set df. is_closed c \<and> P c l"
proof -
  have "l \<in> set (results (run_closes (closed_trades df) (initial_state df)))"
    using assms(2) by (simp add: process_trades_def matcher_run_def split: if_splits)
  then have "l \<in> set (results (initial_state df)) \<or> (\<exists>c\<in>set (closed_trades df). P c l)"
    using assms(1) by (intro run_closes_results) auto
  then show ?thesis by (auto simp: initial_state_def closed_trades_def)
qed

subsection \<open>The trading day\<close>

lemma day_number_adjusted:
  "day_number (get_adjusted_date t) = (if hour t < 7 then day_number t - 1 else day_number t)"
proof -
  have "(t - 86400) div 86400 = t div 86400 - 1"
    using div_mult_self1[of 86400 t "-1"] by simp
  then show ?thesis by (simp add: get_adjusted_date_def day_number_def)
qed

lemma hour_range: "0 \<le> hour t \<and> hour t < 24"
proof -
  have "0 \<le> t mod 86400" "t mod 86400 < 86400" by simp_all
  then show ?thesis unfolding hour_def by (simp add: div_less_iff_less_mult pos_imp_zdiv_nonneg_iff)
qed

subsection \<open>The closed lots taken from an opening row\<close>

lemma matched_quantity_matched_lot [simp]: "matched_quantity (matched_lot c a nt m) = m"
  by (simp add: matched_quantity_def matched_lot_def lot_size_nonzero)

lemma taken_from_append [simp]: "taken_from j (xs @ ys) = taken_from j xs + taken_from j ys"
  by (simp add: taken_from_def)

lemma taken_from_Nil [simp]: "taken_from j [] = 0"
  by (simp add: taken_from_def)

lemma taken_from_slices:
  "taken_from j (map (\<lambda>((i, nt), m). (i, matched_lot c a nt m)) xs)
     = sum_list (map snd (filter (\<lambda>p. fst p = j) (map (\<lambda>((i, nt), m). (i, m)) xs)))"
  by (induction xs) (auto simp: taken_from_def)

lemma slices_indices:
  "zip (map fst (potential_matches (new_trades s) c))
       (matched_qtys (quantity c) (rems (potential_matches (new_trades s) c)))
     = map (\<lambda>((i, nt), m). (i, m)) (slices c s)"
  by (simp add: slices_def zip_map1 case_prod_unfold)

lemma close_one_taken_from:
  assumes "j < length (new_trades s)"
  shows "taken_from j (map (\<lambda>((i, nt), m). (i, matched_lot c a nt m)) (slices c s))
           = remaining (new_trades s ! j) - remaining (new_trades (close_one c s) ! j)"
  using close_one_taken[OF assms, of c] by (simp only: taken_from_slices slices_indices)

lemma run_taken_from:
  "j < length (new_trades s) \<Longrightarrow>
   taken_from j (run_taken cs s)
     = remaining (new_trades s ! j) - remaining (new_trades (run_closes cs s) ! j)"
proof (induction cs arbitrary: s)
  case Nil
  then show ?case by simp
next
  case (Cons c cs)
  have len: "j < length (new_trades (close_one c s))" using Cons.prems by simp
  show ?case
    using Cons.IH[OF len] close_one_taken_from[OF Cons.prems, of c "get_adjusted_date (dt c)"]
    by simp
qed

lemma emitted_matched:
  "filter (\<lambda>l. cl_holding_time l \<noteq> None) (emitted c s)
     = map snd (map (\<lambda>((i, nt), m). (i, matched_lot c (get_adjusted_date (dt c)) nt m)) (slices c s))"
proof -
  let ?pm = "potential_matches (new_trades s) c"
  let ?qs = "matched_qtys (quantity c) (rems ?pm)"
  let ?a = "get_adjusted_date (dt c)"
  let ?F = "\<lambda>p. matched_lot c ?a (snd (fst p)) (snd p)"
  have keep: "filter (\<lambda>l. cl_holding_time l \<noteq> None) (map ?F xs) = map ?F xs"
    for xs :: "((nat \<times> new_trade) \<times> rat) list"
    by (induction xs) (simp_all add: matched_lot_def)
  have rhs: "map snd (map (\<lambda>((i, nt), m). (i, matched_lot c ?a nt m)) xs) = map ?F xs"
    for xs :: "((nat \<times> new_trade) \<times> rat) list"
    by (induction xs) (simp_all add: case_prod_unfold)
  show ?thesis
  proof (cases "?qs = []")
    case True
    then show ?thesis by (simp add: emitted_eq slices_def unmatched_lot_def)
  next
    case False
    then have "emitted c s = map ?F (zip ?pm ?qs)"
      by (simp add: emitted_eq Let_def case_prod_unfold)
    then show ?thesis by (simp only: keep rhs slices_def)
  qed
qed

lemma run_results_matched:
  "filter (\<lambda>l. cl_holding_time l \<noteq> None) (results (run_closes cs s))
     = filter (\<lambda>l. cl_holding_time l \<noteq> None) (results s) @ map snd (run_taken cs s)"
proof (induction cs arbitrary: s)
  case Nil
  then show ?case by simp
next
  case (Cons c cs)
  show ?case
    by (simp only: run_closes_Cons Cons.IH close_one_results filter_append emitted_matched
          run_taken.simps map_append append_assoc)
qed

lemma slices_entries:
  assumes "((i, nt), m) \<in> set (slices c s)"
  shows "i < length (new_trades s) \<and> new_trades s ! i = nt \<and> eligible c nt \<and> 0 < m"
proof -
  have "(i, nt) \<in> set (potential_matches (new_trades s) c)"
    using assms by (auto simp: slices_def dest: set_zip_leftD)
  moreover have "m \<in> set (matched_qtys (quantity c) (rems (potential_matches (new_trades s) c)))"
    using assms by (auto simp: slices_def dest: set_zip_rightD)
  ultimately show ?thesis
    using potential_matches_in[of i nt "new_trades s" c]
      matched_qtys_pos[OF potential_matches_rems_pos, of "quantity c" "new_trades s" c]
    by blast
qed

lemma run_taken_entries:
  "p \<in> set (run_taken cs s) \<Longrightarrow>
   fst p < length (new_trades s)
   \<and> cl_instrument (snd p) = instrument (row (new_trades s ! fst p))
   \<and> 0 < matched_quantity (snd p)
   \<and> (\<exists>c\<in>set cs. cl_holding_time (snd p) = Some (dt c - dt (row (new_trades s ! fst p))))"
proof (induction cs arbitrary: s)
  case Nil
  then show ?case by simp
next
  case (Cons c cs)
  from Cons.prems have
    "p \<in> set (map (\<lambda>((i, nt), m). (i, matched_lot c (get_adjusted_date (dt c)) nt m))
                       (slices c s))
     \<or> p \<in> set (run_taken cs (close_one c s))"
    by simp
  then show ?case
  proof
    assume "p \<in> set (map (\<lambda>((i, nt), m). (i, matched_lot c (get_adjusted_date (dt c)) nt m))
                       (slices c s))"
    then obtain i nt m where x: "((i, nt), m) \<in> set (slices c s)"
      and p: "p = (i, matched_lot c (get_adjusted_date (dt c)) nt m)"
      by auto
    have e: "i < length (new_trades s) \<and> new_trades s ! i = nt \<and> eligible c nt \<and> 0 < m"
      using x by (rule slices_entries)
    then have "cl_instrument (snd p) = instrument (row (new_trades s ! i))"
      by (simp add: p matched_lot_def eligible_def)
    moreover have "cl_holding_time (snd p) = Some (dt c - dt (row (new_trades s ! i)))"
      using e by (simp add: p matched_lot_def)
    ultimately show ?thesis using e by (simp add: p)
  next
    assume later: "p \<in> set (run_taken cs (close_one c s))"
    have r: "row (new_trades (close_one c s) ! fst p) = row (new_trades s ! fst p)"
      if "fst p < length (new_trades s)"
      using that nth_map[of "fst p" "new_trades (close_one c s)" row]
        nth_map[of "fst p" "new_trades s" row] by simp
    show ?thesis using Cons.IH[OF later] r by auto
  qed
qed

text \<open>A closing execution of negative quantity takes nothing: the inner loop stops at
  its first test and the fallback lot is appended.\<close>

lemma negative_close_example:
  "map remaining (new_trades (matcher_run [ex_open 0 5, ex_open 10 5, ex_close 7200 (- 3) 600]))
     = [5, 5]
   \<and> map cl_holding_time (process_trades [ex_open 0 5, ex_open 10 5, ex_close 7200 (- 3) 600])
     = [None]"
  by code_simp

lemma length_run_closes [simp]:
  "length (new_trades (run_closes cs s)) = length (new_trades s)"
  by (induction cs arbitrary: s) simp_all

section \<open>Properties of the aggregator\<close>

lemma group_rows_filter:
  "group_rows (filter P df) cols k = filter P (group_rows df cols k)"
  by (auto simp: group_rows_def intro: filter_cong)

lemma wrap64_zero [simp]: "wrap64 0 = 0"
  by (simp add: wrap64_def)

lemma col_sum_Nil [simp]: "col_sum ty [] = 0"
  by (cases ty) simp_all

lemma col_abs_zero [simp]: "col_abs ty (Fin 0) = Fin 0"
  by (cases ty) simp_all

lemma gross_profit_eq:
  "sr_gross_profit (summarise ty df cols k)
     = Fin (col_sum ty (map cl_profit (filter (\<lambda>l. cl_profit l > 0) (group_rows df cols k))))"
  by (simp add: summarise_def Let_def grouped_sum_def group_rows_filter)

lemma gross_loss_eq:
  "sr_gross_loss (summarise ty df cols k)
     = Fin (col_sum ty (map cl_profit (filter (\<lambda>l. cl_profit l < 0) (group_rows df cols k))))"
  by (simp add: summarise_def Let_def grouped_sum_def group_rows_filter)

lemma summarise_fields:
  "sr_count (summarise ty df cols k) = length (group_rows df cols k)"
  "sr_wins (summarise ty df cols k)
     = length (filter (\<lambda>l. cl_profit l > 0) (group_rows df cols k))"
  "sr_losses (summarise ty df cols k)
     = length (filter (\<lambda>l. cl_profit l < 0) (group_rows df cols k))"
  "sr_win_rate (summarise ty df cols k)
     = fillna (Fin 0) (fmul (fdiv (Fin (of_nat (sr_wins (summarise ty df cols k))))
                                  (Fin (of_nat (sr_count (summarise ty df cols k))))) (Fin 100))"
  "sr_pf (summarise ty df cols k)
     = fillna PInf (fdiv (sr_gross_profit (summarise ty df cols k))
                         (col_abs (loss_column_dtype ty df cols)
                            (sr_gross_loss (summarise ty df cols k))))"
  "sr_avg_win (summarise ty df cols k)
     = fillna (Fin 0) (fdiv (sr_gross_profit (summarise ty df cols k))
                            (Fin (of_nat (sr_wins (summarise ty df cols k)))))"
  "sr_avg_loss (summarise ty df cols k)
     = fillna (Fin 0) (fdiv (sr_gross_loss (summarise ty df cols k))
                            (Fin (of_nat (sr_losses (summarise ty df cols k)))))"
  "sr_rr (summarise ty df cols k)
     = fillna PInf (fdiv (sr_avg_win (summarise ty df cols k))
                         (fabs (sr_avg_loss (summarise ty df cols k))))"
  by (simp_all add: summarise_def Let_def)

lemma gross_profit_nonneg:
  "0 \<le> sum_list (map cl_profit (filter (\<lambda>l. cl_profit l > 0) g))"
  by (rule sum_list_nonneg) auto

text \<open>Without losing trades the two ratios are plus infinity when the summed winning
  profits are not negative, and minus infinity when the int64 sum has wrapped around to
  a negative number.\<close>

lemma no_losses:
  assumes "sr_losses (summarise ty df cols k) = 0"
  shows "sr_pf (summarise ty df cols k)
           = (if 0 \<le> col_sum ty (map cl_profit
                  (filter (\<lambda>l. cl_profit l > 0) (group_rows df cols k))) then PInf else NInf)
       \<and> sr_rr (summarise ty df cols k)
           = (if 0 \<le> col_sum ty (map cl_profit
                  (filter (\<lambda>l. cl_profit l > 0) (group_rows df cols k))) then PInf else NInf)
       \<and> sr_avg_loss (summarise ty df cols k) = Fin 0"
proof -
  let ?won = "filter (\<lambda>l. cl_profit l > 0) (group_rows df cols k)"
  let ?G = "col_sum ty (map cl_profit ?won)"
  have lost: "filter (\<lambda>l. cl_profit l < 0) (group_rows df cols k) = []"
    using assms by (simp add: summarise_fields(3))
  have gl: "sr_gross_loss (summarise ty df cols k) = Fin 0"
    by (simp add: gross_loss_eq lost)
  have al: "sr_avg_loss (summarise ty df cols k) = Fin 0"
    using assms by (simp add: summarise_fields(7) gl)
  have pf: "sr_pf (summarise ty df cols k) = (if 0 \<le> ?G then PInf else NInf)"
    by (simp add: summarise_fields(5) gl gross_profit_eq)
  have aw: "sr_avg_win (summarise ty df cols k)
              = (if ?won = [] then Fin 0 else Fin (?G / of_nat (length ?won)))"
    by (simp add: summarise_fields(6) summarise_fields(2) gross_profit_eq)
  have rr: "sr_rr (summarise ty df cols k) = (if 0 \<le> ?G then PInf else NInf)"
  proof (cases "?won = []")
    case True
    then show ?thesis by (simp add: summarise_fields(8) al aw)
  next
    case False
    then have n: "0 < (of_nat (length ?won) :: rat)" by simp
    have "?G / of_nat (length ?won) = 0 \<longleftrightarrow> ?G = 0" using n by simp
    moreover have "0 < ?G / of_nat (length ?won) \<longleftrightarrow> 0 < ?G"
      using n by (simp add: zero_less_divide_iff)
    ultimately show ?thesis using False by (auto simp: summarise_fields(8) al aw)
  qed
  show ?thesis using pf rr al by simp
qed

lemma no_wins:
  assumes "sr_wins (summarise ty df cols k) = 0"
  shows "sr_avg_win (summarise ty df cols k) = Fin 0"
proof -
  have "filter (\<lambda>l. cl_profit l > 0) (group_rows df cols k) = []"
    using assms by (simp add: summarise_fields(2))
  then show ?thesis using assms by (simp add: summarise_fields(6) gross_profit_eq)
qed

lemma no_trades:
  assumes "sr_count (summarise ty df cols k) = 0"
  shows "sr_win_rate (summarise ty df cols k) = Fin 0"
proof -
  have "group_rows df cols k = []" using assms by (simp add: summarise_fields(1))
  then show ?thesis by (simp add: summarise_def Let_def)
qed

text \<open>On a float64 profit column the edge cases of the ratios are as the specification
  states them.\<close>

lemma ratio_edge_cases_float64:
  "(sr_losses (summarise Float64 df cols k) = 0 \<longrightarrow>
       sr_pf (summarise Float64 df cols k) = PInf \<and> sr_rr (summarise Float64 df cols k) = PInf)
   \<and> (sr_count (summarise ty df cols k) = 0 \<longrightarrow> sr_win_rate (summarise ty df cols k) = Fin 0)
   \<and> (sr_wins (summarise ty df cols k) = 0 \<longrightarrow> sr_avg_win (summarise ty df cols k) = Fin 0)
   \<and> (sr_losses (summarise ty df cols k) = 0 \<longrightarrow> sr_avg_loss (summarise ty df cols k) = Fin 0)"
  using no_losses[of Float64 df cols k] no_losses[of ty df cols k] no_wins[of ty df cols k]
    no_trades[of ty df cols k] gross_profit_nonneg[of "group_rows df cols k"]
  by simp

lemma length_filter_disjoint:
  "(\<And>x. \<not> (P x \<and> Q x)) \<Longrightarrow> length (filter P xs) + length (filter Q xs) \<le> length xs"
  by (induction xs) auto

lemma group_keys_set: "set (group_keys df cols) = group_key cols ` set df"
  by (simp add: group_keys_def)

lemma group_rows_nonempty:
  "k \<in> set (group_keys df cols) \<Longrightarrow> group_rows df cols k \<noteq> []"
  by (auto simp: group_keys_set group_rows_def filter_empty_conv)

lemma summarise_invariants:
  "sr_wins (summarise ty df cols k) + sr_losses (summarise ty df cols k) \<le> sr_count (summarise ty df cols k)"
  unfolding summarise_fields(1,2,3)
  by (rule length_filter_disjoint) auto

lemma win_rate_range:
  assumes "0 < sr_count (summarise ty df cols k)"
  shows "\<exists>w. sr_win_rate (summarise ty df cols k) = Fin w \<and> 0 \<le> w \<and> w \<le> 100"
proof -
  let ?w = "sr_wins (summarise ty df cols k)" and ?n = "sr_count (summarise ty df cols k)"
  have le: "?w \<le> ?n" using summarise_invariants[of ty df cols k] by simp
  have n: "(of_nat ?n :: rat) \<noteq> 0" "0 < (of_nat ?n :: rat)" using assms by simp_all
  have eq: "sr_win_rate (summarise ty df cols k) = Fin (of_nat ?w / of_nat ?n * 100)"
    using n(1) by (simp add: summarise_fields(4))
  have "(of_nat ?w :: rat) \<le> of_nat ?n" using le by simp
  then have "(of_nat ?w :: rat) / of_nat ?n \<le> 1" using n(2) by (simp add: divide_le_eq)
  then have "(of_nat ?w :: rat) / of_nat ?n * 100 \<le> 1 * 100"
    by (intro mult_right_mono) simp_all
  then have "(of_nat ?w :: rat) / of_nat ?n * 100 \<le> 100" by (simp only: mult_1)
  moreover have "0 \<le> (of_nat ?w :: rat) / of_nat ?n * 100" by simp
  ultimately show ?thesis using eq by blast
qed

section \<open>The claims\<close>

lemmas ex_defs = mk_exec_def ex_open_def ex_close_def ex_other_def









text \<open>
  C2. Two opening rows eligible for the same closing execution, the first strictly
  earlier than the second, in the time-sorted table, and a closing quantity that does not
  exceed the remaining quantity of the earlier row. The later row is then left untouched.
  The whole closing quantity is taken from the earlier row when, in addition, no eligible
  row precedes it in the table and the closing quantity is not negative. The table is
  time-sorted in every state of a run (lemma \<open>run_closes_sorted\<close>).
\<close>

theorem oldest_first:
  assumes srt: "sorted (map (\<lambda>nt. dt (row nt)) (new_trades s))"
    and i: "i < length (new_trades s)" and j: "j < length (new_trades s)"
    and ei: "eligible c (new_trades s ! i)" and ej: "eligible c (new_trades s ! j)"
    and lt: "dt (row (new_trades s ! i)) < dt (row (new_trades s ! j))"
    and le: "quantity c \<le> remaining (new_trades s ! i)"
  shows "new_trades (close_one c s) ! j = new_trades s ! j
       \<and> ((\<forall>k<i. \<not> eligible c (new_trades s ! k)) \<and> 0 \<le> quantity c \<longrightarrow>
            new_trades (close_one c s) = subtract_remaining i (quantity c) (new_trades s)
          \<and> remaining (new_trades (close_one c s) ! i)
              = remaining (new_trades s ! i) - quantity c)"
proof -
  let ?T = "new_trades s"
  let ?P = "\<lambda>(k, nt). eligible c nt"
  let ?A = "filter ?P (List.enumerate 0 (take j ?T))"
  let ?B = "filter ?P (List.enumerate (length (take j ?T)) (drop j ?T))"
  let ?pm = "potential_matches ?T c"
  let ?q = "quantity c"
  have ij: "i < j"
  proof (rule ccontr)
    assume "\<not> i < j"
    then have "j \<le> i" by simp
    then have "map (\<lambda>nt. dt (row nt)) ?T ! j \<le> map (\<lambda>nt. dt (row nt)) ?T ! i"
      using srt i by (intro sorted_nth_mono) auto
    then show False using lt i j by simp
  qed
  have pm: "?pm = ?A @ ?B" by (rule potential_matches_split)
  have Apos: "\<forall>r\<in>set (rems ?A). 0 < r"
    using potential_matches_rems_pos[of ?T c] unfolding pm by auto
  have inA: "(i, ?T ! i) \<in> set ?A"
    using ij j ei by (auto simp: in_set_enumerate_eq)
  then have "remaining (?T ! i) \<in> set (rems ?A)" by force
  then have "remaining (?T ! i) \<le> sum_list (rems ?A)"
    using Apos by (intro member_le_sum_list) (auto intro: less_imp_le)
  then have qle: "?q \<le> sum_list (rems ?A)" using le by simp
  have qs: "matched_qtys ?q (rems ?pm) = matched_qtys ?q (rems ?A)"
    unfolding pm using matched_qtys_prefix[OF Apos qle] by simp
  have len: "length (matched_qtys ?q (rems ?A)) \<le> length ?A"
    using matched_qtys_length[of ?q "rems ?A"] by simp
  have "fst ` set (zip (map fst ?pm) (matched_qtys ?q (rems ?pm))) \<subseteq> fst ` set ?A"
  proof -
    have "zip (map fst ?pm) (matched_qtys ?q (rems ?pm))
            = zip (map fst ?A) (matched_qtys ?q (rems ?A))"
      unfolding qs unfolding pm using len by (simp add: zip_append1)
    moreover have "fst ` set (zip (map fst ?A) (matched_qtys ?q (rems ?A))) \<subseteq> set (map fst ?A)"
      by (auto dest: set_zip_leftD)
    ultimately show ?thesis by auto
  qed
  moreover have "j \<notin> fst ` set ?A"
    by (auto simp: in_set_enumerate_eq)
  ultimately have "j \<notin> fst ` set (zip (map fst ?pm) (matched_qtys ?q (rems ?pm)))" by blast
  then have part1: "new_trades (close_one c s) ! j = ?T ! j"
    by (simp add: close_one_new_trades nth_fold_subtract)
  have part2: "new_trades (close_one c s) = subtract_remaining i ?q ?T
             \<and> remaining (new_trades (close_one c s) ! i) = remaining (?T ! i) - ?q"
    if first: "\<forall>k<i. \<not> eligible c (?T ! k)" and nonneg: "0 \<le> ?q"
  proof -
    obtain rest where hd: "?pm = (i, ?T ! i) # rest"
      using potential_matches_first[OF i ei first] by blast
    have tbl: "new_trades (close_one c s) = subtract_remaining i ?q ?T"
    proof (cases "?q = 0")
      case True
      have "subtract_remaining i 0 ?T = ?T"
        by (simp add: subtract_remaining_def)
      then show ?thesis using True by (simp add: close_one_new_trades matched_qtys_nonpos)
    next
      case False
      then have "0 < ?q" using nonneg by simp
      then have "matched_qtys ?q (rems ?pm) = [?q]"
        using le by (simp add: hd min_def matched_qtys_nonpos)
      then show ?thesis by (simp add: close_one_new_trades hd)
    qed
    then show ?thesis using i by (simp add: subtract_remaining_def)
  qed
  show ?thesis using part1 part2 by blast
qed

theorem oldest_first_witness:
  "new_trades (close_one (ex_close 7200 4 600)
       (initial_state [ex_open 0 5, ex_open 10 5, ex_open 20 5])) ! 1
     = new_trades (initial_state [ex_open 0 5, ex_open 10 5, ex_open 20 5]) ! 1
   \<and> remaining (new_trades (close_one (ex_close 7200 4 600)
       (initial_state [ex_open 0 5, ex_open 10 5, ex_open 20 5])) ! 0) = 1"
proof -
  let ?c = "ex_close 7200 4 600"
  let ?s = "initial_state [ex_open 0 5, ex_open 10 5, ex_open 20 5]"
  have h1: "sorted (map (\<lambda>nt. dt (row nt)) (new_trades ?s))" by code_simp
  have h2: "0 < length (new_trades ?s)" by code_simp
  have h3: "1 < length (new_trades ?s)" by code_simp
  have h4: "eligible ?c (new_trades ?s ! 0)" by code_simp
  have h5: "eligible ?c (new_trades ?s ! 1)" by code_simp
  have h6: "dt (row (new_trades ?s ! 0)) < dt (row (new_trades ?s ! 1))" by code_simp
  have h7: "quantity ?c \<le> remaining (new_trades ?s ! 0)" by code_simp
  have h8: "0 \<le> quantity ?c" by (simp add: ex_defs)
  have v: "remaining (new_trades ?s ! 0) - quantity ?c = 1" by code_simp
  note t = oldest_first[OF h1 h2 h3 h4 h5 h6 h7]
  have a: "new_trades (close_one ?c ?s) ! 1 = new_trades ?s ! 1"
    using t by (rule conjunct1)
  have "remaining (new_trades (close_one ?c ?s) ! 0)
          = remaining (new_trades ?s ! 0) - quantity ?c"
    using t h8 not_less0 by blast
  then have b: "remaining (new_trades (close_one ?c ?s) ! 0) = 1"
    using v by (rule trans)
  show ?thesis using a b by (rule conjI)
qed

text \<open>
  C2, as stated for every pair of eligible rows, fails when the earlier row of the pair
  is not the oldest candidate: with three eligible rows of 5 units opened at times 0, 10
  and 20 and a closing quantity of 5, the rows opened at 10 and 20 form such a pair, but
  the 5 units are taken from the row opened at 0 and the row opened at 10 keeps its 5
  units.
\<close>

theorem fifo_every_pair_counterexample:
  "eligible (ex_close 7200 5 600)
      (initial_new_trades [ex_open 0 5, ex_open 10 5, ex_open 20 5, ex_close 7200 5 600] ! 1)
   \<and> eligible (ex_close 7200 5 600)
      (initial_new_trades [ex_open 0 5, ex_open 10 5, ex_open 20 5, ex_close 7200 5 600] ! 2)
   \<and> dt (row (initial_new_trades
         [ex_open 0 5, ex_open 10 5, ex_open 20 5, ex_close 7200 5 600] ! 1))
       < dt (row (initial_new_trades
         [ex_open 0 5, ex_open 10 5, ex_open 20 5, ex_close 7200 5 600] ! 2))
   \<and> quantity (ex_close 7200 5 600)
       \<le> remaining (initial_new_trades
             [ex_open 0 5, ex_open 10 5, ex_open 20 5, ex_close 7200 5 600] ! 1)
   \<and> closed_trades [ex_open 0 5, ex_open 10 5, ex_open 20 5, ex_close 7200 5 600]
       = [ex_close 7200 5 600]
   \<and> map remaining (new_trades (matcher_run
         [ex_open 0 5, ex_open 10 5, ex_open 20 5, ex_close 7200 5 600])) = [0, 5, 5]
   \<and> remaining (new_trades (matcher_run
         [ex_open 0 5, ex_open 10 5, ex_open 20 5, ex_close 7200 5 600]) ! 1)
       \<noteq> remaining (initial_new_trades
             [ex_open 0 5, ex_open 10 5, ex_open 20 5, ex_close 7200 5 600] ! 1)
           - quantity (ex_close 7200 5 600)"
  by code_simp

text \<open>
  C3. For every opening row and at every point of a run between two closing executions
  (after the first \<open>k\<close> closing executions, for every \<open>k\<close>, so also at the end): the
  closed lots of the results that have a holding time are exactly the lots of
  \<open>run_taken\<close>, each taken from an opening row of its own instrument, of positive raw
  quantity, and with the holding time from that row to one of the closing executions; the raw quantities of the closed lots taken from the row add up to its
  executed quantity minus its remaining quantity, and are not negative; the row itself is
  unchanged; and when the executed quantity of the row is not negative, that sum does not
  exceed the executed quantity and the remaining quantity is not negative.
\<close>

theorem no_over_consumption:
  assumes "j < length (initial_new_trades df)"
  shows "filter (\<lambda>l. cl_holding_time l \<noteq> None)
           (results (run_closes (take k (closed_trades df)) (initial_state df)))
         = map snd (run_taken (take k (closed_trades df)) (initial_state df))
       \<and> (\<forall>p\<in>set (run_taken (take k (closed_trades df)) (initial_state df)).
            fst p < length (initial_new_trades df)
          \<and> cl_instrument (snd p) = instrument (row (initial_new_trades df ! fst p))
          \<and> 0 < matched_quantity (snd p)
          \<and> (\<exists>c\<in>set (take k (closed_trades df)).
                cl_holding_time (snd p) = Some (dt c - dt (row (initial_new_trades df ! fst p)))))
       \<and> taken_from j (run_taken (take k (closed_trades df)) (initial_state df))
           = quantity (row (initial_new_trades df ! j))
             - remaining (new_trades (run_closes (take k (closed_trades df)) (initial_state df)) ! j)
       \<and> 0 \<le> taken_from j (run_taken (take k (closed_trades df)) (initial_state df))
       \<and> row (new_trades (run_closes (take k (closed_trades df)) (initial_state df)) ! j)
           = row (initial_new_trades df ! j)
       \<and> (0 \<le> quantity (row (initial_new_trades df ! j)) \<longrightarrow>
            taken_from j (run_taken (take k (closed_trades df)) (initial_state df))
              \<le> quantity (row (initial_new_trades df ! j))
          \<and> 0 \<le> remaining
                 (new_trades (run_closes (take k (closed_trades df)) (initial_state df)) ! j))"
proof -
  let ?cs = "take k (closed_trades df)"
  let ?ini = "initial_state df"
  let ?s = "run_closes ?cs ?ini"
  let ?tr = "run_taken ?cs ?ini"
  let ?tbl = "initial_new_trades df"
  have T0: "new_trades ?ini = ?tbl" "results ?ini = []" by (simp_all add: initial_state_def)
  have j0: "j < length (new_trades ?ini)" using assms by (simp add: T0)
  have len: "length (new_trades ?s) = length ?tbl"
    by (simp add: T0)
  have j: "j < length (new_trades ?s)" using assms len by simp
  have c1: "filter (\<lambda>l. cl_holding_time l \<noteq> None) (results ?s) = map snd ?tr"
    using run_results_matched[of ?cs ?ini] by (simp add: T0)
  have c2: "\<forall>p\<in>set ?tr. fst p < length ?tbl
          \<and> cl_instrument (snd p) = instrument (row (?tbl ! fst p))
          \<and> 0 < matched_quantity (snd p)
          \<and> (\<exists>c\<in>set ?cs. cl_holding_time (snd p) = Some (dt c - dt (row (?tbl ! fst p))))"
    using run_taken_entries[of _ ?cs ?ini] by (simp add: T0)
  have init: "remaining (?tbl ! j) = quantity (row (?tbl ! j))"
    using assms by (simp add: initial_new_trades_def)
       (metis (mono_tags, lifting) length_map length_sort nth_map nth_mem set_map set_sort
          imageE new_trade.select_convs)
  have c3: "taken_from j ?tr = quantity (row (?tbl ! j)) - remaining (new_trades ?s ! j)"
    using run_taken_from[OF j0, of ?cs] by (simp add: T0 init)
  have c5: "row (new_trades ?s ! j) = row (?tbl ! j)"
    using nth_map[OF j, of row] nth_map[OF assms, of row] map_row_run_closes[of ?cs ?ini]
    by (simp add: T0)
  have "new_trades ?s ! j \<in> set (new_trades ?s)" using j by simp
  then have ok: "lot_ok (new_trades ?s ! j)"
    using run_closes_lot_ok[OF initial_lot_ok, of ?cs df] by blast
  have c4: "0 \<le> taken_from j ?tr"
    using ok by (simp add: c3 lot_ok_def c5)
  have c6: "0 \<le> quantity (row (?tbl ! j)) \<longrightarrow>
            taken_from j ?tr \<le> quantity (row (?tbl ! j)) \<and> 0 \<le> remaining (new_trades ?s ! j)"
    using ok by (auto simp: c3 lot_ok_def c5)
  show ?thesis using c1 c2 c3 c4 c5 c6 by blast
qed

theorem no_over_consumption_witness:
  "taken_from 1 (run_taken (take 1 (closed_trades [ex_open 0 5, ex_open 10 5, ex_close 7200 7 600]))
       (initial_state [ex_open 0 5, ex_open 10 5, ex_close 7200 7 600])) = 2
   \<and> map (\<lambda>p. (fst p, matched_quantity (snd p)))
        (run_taken (take 1 (closed_trades [ex_open 0 5, ex_open 10 5, ex_close 7200 7 600]))
          (initial_state [ex_open 0 5, ex_open 10 5, ex_close 7200 7 600]))
       = [(0, 5), (1, 2)]
   \<and> map remaining (new_trades
        (run_closes (take 1 (closed_trades [ex_open 0 5, ex_open 10 5, ex_close 7200 7 600]))
          (initial_state [ex_open 0 5, ex_open 10 5, ex_close 7200 7 600]))) = [0, 3]"
proof -
  let ?df = "[ex_open 0 5, ex_open 10 5, ex_close 7200 7 600]"
  let ?s = "run_closes (take 1 (closed_trades ?df)) (initial_state ?df)"
  let ?tr = "run_taken (take 1 (closed_trades ?df)) (initial_state ?df)"
  have h: "1 < length (initial_new_trades ?df)" by code_simp
  have "taken_from 1 ?tr
          = quantity (row (initial_new_trades ?df ! 1)) - remaining (new_trades ?s ! 1)"
    using no_over_consumption[OF h, of 1] by blast
  moreover have "quantity (row (initial_new_trades ?df ! 1)) - remaining (new_trades ?s ! 1) = 2"
    by code_simp
  ultimately have a: "taken_from 1 ?tr = 2" by (rule trans)
  have b: "map (\<lambda>p. (fst p, matched_quantity (snd p))) ?tr = [(0, 5), (1, 2)]" by code_simp
  have c: "map remaining (new_trades ?s) = [0, 3]" by code_simp
  show ?thesis using a b c by blast
qed

text \<open>
  C3, as stated for every opening row, fails for a row with a negative executed
  quantity: such a row is never eligible, nothing is taken from it, so the quantity taken
  from it (0) exceeds its executed quantity (-5) and its remaining quantity stays
  negative (-5).
\<close>

theorem negative_open_counterexample:
  "quantity (row (initial_new_trades [ex_open 0 (- 5), ex_close 7200 5 600] ! 0)) = - 5
   \<and> closed_trades [ex_open 0 (- 5), ex_close 7200 5 600] = [ex_close 7200 5 600]
   \<and> map remaining (new_trades (matcher_run [ex_open 0 (- 5), ex_close 7200 5 600])) = [- 5]
   \<and> taken_from 0 (run_taken (closed_trades [ex_open 0 (- 5), ex_close 7200 5 600])
         (initial_state [ex_open 0 (- 5), ex_close 7200 5 600])) = 0
   \<and> \<not> taken_from 0 (run_taken (closed_trades [ex_open 0 (- 5), ex_close 7200 5 600])
         (initial_state [ex_open 0 (- 5), ex_close 7200 5 600]))
        \<le> quantity (row (initial_new_trades [ex_open 0 (- 5), ex_close 7200 5 600] ! 0))
   \<and> \<not> 0 \<le> remaining (new_trades (matcher_run [ex_open 0 (- 5), ex_close 7200 5 600]) ! 0)"
  by code_simp

text \<open>
  C6. The closed lots appended for a closing execution have, in order, the lot
  quantities \<open>m / 10000\<close> when the instrument name of the closing execution contains JPY,
  USD or EUR (class FX) and \<open>m / 1\<close> otherwise (class CFD), where \<open>m\<close> runs through the
  matched quantities of the slices, or is the closing quantity for the fallback lot.
  Every closed lot of a run carries the class of its own instrument name. A quantity of
  30000 gives 3 lots for an FX instrument and 30000 lots for a CFD instrument.
\<close>

theorem lot_normalization:
  "(\<forall>l\<in>set (emitted c s).
       cl_trade_type l = (if is_fx (instrument c) then ''FX'' else ''CFD''))
   \<and> map cl_lots (emitted c s) =
       map (\<lambda>m. m / (if is_fx (instrument c) then 10000 else 1))
         (if matched_qtys (quantity c) (rems (potential_matches (new_trades s) c)) = []
          then [quantity c]
          else matched_qtys (quantity c) (rems (potential_matches (new_trades s) c)))
   \<and> (\<forall>l\<in>set (process_trades df).
         cl_trade_type l = (if is_fx (cl_instrument l) then ''FX'' else ''CFD''))
   \<and> (is_fx (instrument c) \<longleftrightarrow>
        str_contains ''JPY'' (instrument c) \<or> str_contains ''USD'' (instrument c)
        \<or> str_contains ''EUR'' (instrument c))
   \<and> (is_fx (instrument c) \<longrightarrow> cl_lots (matched_lot c a nt 30000) = 3
          \<and> cl_lots (unmatched_lot (c\<lparr>quantity := 30000\<rparr>) a) = 3)
   \<and> (\<not> is_fx (instrument c) \<longrightarrow> cl_lots (matched_lot c a nt 30000) = 30000
          \<and> cl_lots (unmatched_lot (c\<lparr>quantity := 30000\<rparr>) a) = 30000)"
proof -
  have tt: "\<forall>l\<in>set (emitted c s). cl_trade_type l = (if is_fx (instrument c) then ''FX'' else ''CFD'')"
    using emitted_fields[of _ c s] by (simp add: trade_type_of_def)
  have lots: "map cl_lots (emitted c s) =
       map (\<lambda>m. m / (if is_fx (instrument c) then 10000 else 1))
         (if matched_qtys (quantity c) (rems (potential_matches (new_trades s) c)) = []
          then [quantity c]
          else matched_qtys (quantity c) (rems (potential_matches (new_trades s) c)))"
    using emitted_lots[of c s] by (simp add: Let_def lot_size_def)
  have run: "\<forall>l\<in>set (process_trades df).
               cl_trade_type l = (if is_fx (cl_instrument l) then ''FX'' else ''CFD'')"
  proof
    fix l assume "l \<in> set (process_trades df)"
    then have "\<exists>c\<in>set df. is_closed c \<and> (cl_instrument l = instrument c
                 \<and> cl_trade_type l = trade_type_of (instrument c))"
      by (rule process_trades_results[rotated]) (simp add: emitted_fields)
    then show "cl_trade_type l = (if is_fx (cl_instrument l) then ''FX'' else ''CFD'')"
      by (auto simp: trade_type_of_def)
  qed
  have rest: "(is_fx (instrument c) \<longleftrightarrow>
        str_contains ''JPY'' (instrument c) \<or> str_contains ''USD'' (instrument c)
        \<or> str_contains ''EUR'' (instrument c))
   \<and> (is_fx (instrument c) \<longrightarrow> cl_lots (matched_lot c a nt 30000) = 3
          \<and> cl_lots (unmatched_lot (c\<lparr>quantity := 30000\<rparr>) a) = 3)
   \<and> (\<not> is_fx (instrument c) \<longrightarrow> cl_lots (matched_lot c a nt 30000) = 30000
          \<and> cl_lots (unmatched_lot (c\<lparr>quantity := 30000\<rparr>) a) = 30000)"
    by (simp add: is_fx_def matched_lot_def unmatched_lot_def lot_size_def)
  show ?thesis using tt lots run rest by blast
qed

theorem lot_normalization_witness:
  "map cl_lots (process_trades [ex_open 0 30000, ex_close 7200 30000 600]) = [3]
   \<and> map cl_trade_type (process_trades [ex_open 0 30000, ex_close 7200 30000 600]) = [''FX'']
   \<and> map cl_lots (process_trades [ex_other 7200 30000 600]) = [30000]
   \<and> map cl_trade_type (process_trades [ex_other 7200 30000 600]) = [''CFD'']"
proof -
  let ?s1 = "initial_state [ex_open 0 30000, ex_close 7200 30000 600]"
  let ?c1 = "ex_close 7200 30000 600"
  let ?s2 = "initial_state [ex_other 7200 30000 600]"
  let ?c2 = "ex_other 7200 30000 600"
  have p1: "process_trades [ex_open 0 30000, ex_close 7200 30000 600] = emitted ?c1 ?s1"
    by code_simp
  have p2: "process_trades [ex_other 7200 30000 600] = emitted ?c2 ?s2"
    by code_simp
  have fx: "is_fx (instrument ?c1)" "\<not> is_fx (instrument ?c2)" by code_simp+
  have q1: "matched_qtys (quantity ?c1) (rems (potential_matches (new_trades ?s1) ?c1)) = [30000]"
    by code_simp
  have q2: "matched_qtys (quantity ?c2) (rems (potential_matches (new_trades ?s2) ?c2)) = []"
    by code_simp
  have e1: "emitted ?c1 ?s1 \<noteq> []" "emitted ?c2 ?s2 \<noteq> []" by code_simp+
  note t1 = lot_normalization[of ?c1 ?s1] and t2 = lot_normalization[of ?c2 ?s2]
  have l1: "map cl_lots (emitted ?c1 ?s1) = [3]"
    using t1 fx(1) q1 by simp
  have l2: "map cl_lots (emitted ?c2 ?s2) = [30000]"
    using t2 fx(2) q2 by (simp add: ex_defs)
  have len: "length (emitted ?c1 ?s1) = 1" "length (emitted ?c2 ?s2) = 1"
    using l1 l2 by (metis length_map length_Cons list.size(3) One_nat_def)+
  have k1: "map cl_trade_type (emitted ?c1 ?s1) = [''FX'']"
    using t1 fx(1) len(1) by (cases "emitted ?c1 ?s1") auto
  have k2: "map cl_trade_type (emitted ?c2 ?s2) = [''CFD'']"
    using t2 fx(2) len(2) by (cases "emitted ?c2 ?s2") auto
  show ?thesis unfolding p1 p2 using l1 k1 l2 k2 by blast
qed

text \<open>
  C7. Every closed lot appended for a closing execution, and so every closed lot of a run,
  has as settlement date and settlement month the formatted adjusted timestamp of its
  closing execution, whatever the opening rows are. The calendar day of the adjusted
  timestamp is the day before the day of the timestamp when the hour of the timestamp
  is less than 7, and the day of the timestamp otherwise; the formatted date and month
  depend on the calendar day only.
\<close>

theorem settlement_from_adjusted_close:
  "(\<forall>l\<in>set (emitted c s).
       cl_date l = strftime_ymd (get_adjusted_date (dt c))
     \<and> cl_month l = strftime_ym (get_adjusted_date (dt c)))
   \<and> (\<forall>l\<in>set (process_trades df). \<exists>c\<in>set df. is_closed c
         \<and> cl_date l = strftime_ymd (get_adjusted_date (dt c))
         \<and> cl_month l = strftime_ym (get_adjusted_date (dt c)))
   \<and> day_number (get_adjusted_date t) = (if hour t < 7 then day_number t - 1 else day_number t)
   \<and> (day_number t = day_number t' \<longrightarrow>
         strftime_ymd t = strftime_ymd t' \<and> strftime_ym t = strftime_ym t')
   \<and> 0 \<le> hour t \<and> hour t < 24"
proof -
  have one: "\<forall>l\<in>set (emitted c s).
       cl_date l = strftime_ymd (get_adjusted_date (dt c))
     \<and> cl_month l = strftime_ym (get_adjusted_date (dt c))"
    using emitted_fields[of _ c s] by simp
  have run: "\<forall>l\<in>set (process_trades df). \<exists>c\<in>set df. is_closed c
         \<and> cl_date l = strftime_ymd (get_adjusted_date (dt c))
         \<and> cl_month l = strftime_ym (get_adjusted_date (dt c))"
  proof
    fix l assume "l \<in> set (process_trades df)"
    then have "\<exists>c\<in>set df. is_closed c \<and> (cl_date l = strftime_ymd (get_adjusted_date (dt c))
                 \<and> cl_month l = strftime_ym (get_adjusted_date (dt c)))"
      by (rule process_trades_results[rotated]) (simp add: emitted_fields)
    then show "\<exists>c\<in>set df. is_closed c
         \<and> cl_date l = strftime_ymd (get_adjusted_date (dt c))
         \<and> cl_month l = strftime_ym (get_adjusted_date (dt c))" by simp
  qed
  have fmt: "day_number t = day_number t' \<longrightarrow>
         strftime_ymd t = strftime_ymd t' \<and> strftime_ym t = strftime_ym t'"
    by (simp add: strftime_ymd_def strftime_ym_def)
  show ?thesis using one run day_number_adjusted[of t] fmt hour_range[of t] by blast
qed

theorem settlement_from_adjusted_close_witness:
  "map cl_date (process_trades [ex_open 1709114400 10000, ex_close 1709254800 10000 500])
     = [''2024-02-29'']
   \<and> map cl_month (process_trades [ex_open 1709114400 10000, ex_close 1709254800 10000 500])
     = [''2024-02'']
   \<and> strftime_ymd (dt (ex_close 1709254800 10000 500)) = ''2024-03-01''
   \<and> strftime_ymd (dt (ex_open 1709114400 10000)) = ''2024-02-28''
   \<and> hour (dt (ex_close 1709254800 10000 500)) = 1"
proof -
  let ?df = "[ex_open 1709114400 10000, ex_close 1709254800 10000 500]"
  let ?c = "ex_close 1709254800 10000 500"
  let ?s = "initial_state ?df"
  have p: "process_trades ?df = emitted ?c ?s" by code_simp
  have len: "length (emitted ?c ?s) = 1" by code_simp
  have v: "strftime_ymd (get_adjusted_date (dt ?c)) = ''2024-02-29''"
          "strftime_ym (get_adjusted_date (dt ?c)) = ''2024-02''"
          "strftime_ymd (dt ?c) = ''2024-03-01''"
          "strftime_ymd (dt (ex_open 1709114400 10000)) = ''2024-02-28''"
          "hour (dt ?c) = 1"
    by code_simp+
  have t: "\<forall>l\<in>set (emitted ?c ?s).
       cl_date l = strftime_ymd (get_adjusted_date (dt ?c))
     \<and> cl_month l = strftime_ym (get_adjusted_date (dt ?c))"
    using settlement_from_adjusted_close[of ?c ?s] by (rule conjunct1)
  have d: "map cl_date (emitted ?c ?s) = [''2024-02-29'']"
    using t len v(1) by (cases "emitted ?c ?s") auto
  have m: "map cl_month (emitted ?c ?s) = [''2024-02'']"
    using t len v(2) by (cases "emitted ?c ?s") auto
  show ?thesis unfolding p using d m v(3,4,5) by blast
qed

text \<open>
  C8. On an int64 profit column the sum of the winning profits of a group wraps around,
  and a group without losing trades then gets a negative total profit and the ratios
  minus infinity instead of plus infinity. Two closing executions without an opening
  row, each with the integer profit \<open>2 ^ 62\<close>, give two fallback lots, an int64 profit
  column, and one summary row of class FX with no loss, two wins, the total winning profit
  \<open>- 2 ^ 63\<close> and both ratios minus infinity. (On a float64 column, and when the sum does
  not wrap around, the ratios are plus infinity: lemmas \<open>ratio_edge_cases_float64\<close> and
  \<open>no_losses\<close>.)
\<close>

theorem ratio_edge_cases_int64_overflow:
  "results_dtype Int64 (process_trades [ex_close 0 1 (2 ^ 62), ex_close 10 1 (2 ^ 62)]) = Int64
   \<and> map cl_profit (process_trades [ex_close 0 1 (2 ^ 62), ex_close 10 1 (2 ^ 62)])
       = [2 ^ 62, 2 ^ 62]
   \<and> map sr_key (analyze_summary Int64
         (process_trades [ex_close 0 1 (2 ^ 62), ex_close 10 1 (2 ^ 62)]) [ColTradeType])
       = [[''FX'']]
   \<and> map sr_losses (analyze_summary Int64
         (process_trades [ex_close 0 1 (2 ^ 62), ex_close 10 1 (2 ^ 62)]) [ColTradeType]) = [0]
   \<and> map sr_wins (analyze_summary Int64
         (process_trades [ex_close 0 1 (2 ^ 62), ex_close 10 1 (2 ^ 62)]) [ColTradeType]) = [2]
   \<and> map sr_gross_profit (analyze_summary Int64
         (process_trades [ex_close 0 1 (2 ^ 62), ex_close 10 1 (2 ^ 62)]) [ColTradeType])
       = [Fin (- (2 ^ 63))]
   \<and> map sr_pf (analyze_summary Int64
         (process_trades [ex_close 0 1 (2 ^ 62), ex_close 10 1 (2 ^ 62)]) [ColTradeType])
       = [NInf]
   \<and> map sr_rr (analyze_summary Int64
         (process_trades [ex_close 0 1 (2 ^ 62), ex_close 10 1 (2 ^ 62)]) [ColTradeType])
       = [NInf]"
proof -
  have p: "process_trades [ex_close 0 1 (2 ^ 62), ex_close 10 1 (2 ^ 62)]
             = [unmatched_lot (ex_close 0 1 (2 ^ 62)) (get_adjusted_date 0),
                unmatched_lot (ex_close 10 1 (2 ^ 62)) (get_adjusted_date 10)]"
    by code_simp
  show ?thesis unfolding p by code_simp
qed

text \<open>
  C10. Every row that \<open>analyze_summary\<close> returns counts at least one trade, its wins and
  losses together do not exceed its trades, and its win rate is a finite number between 0
  and 100. A non-empty input yields at least one row.
\<close>

theorem summary_row_invariants:
  "(\<forall>r\<in>set (analyze_summary ty df cols).
       1 \<le> sr_count r \<and> sr_wins r + sr_losses r \<le> sr_count r
     \<and> (\<exists>w. sr_win_rate r = Fin w \<and> 0 \<le> w \<and> w \<le> 100))
   \<and> (df \<noteq> [] \<longrightarrow> analyze_summary ty df cols \<noteq> [])"
proof -
  have rows: "\<forall>r\<in>set (analyze_summary ty df cols).
       1 \<le> sr_count r \<and> sr_wins r + sr_losses r \<le> sr_count r
     \<and> (\<exists>w. sr_win_rate r = Fin w \<and> 0 \<le> w \<and> w \<le> 100)"
  proof
    fix r assume "r \<in> set (analyze_summary ty df cols)"
    then obtain k where k: "k \<in> set (group_keys df cols)" and r: "r = summarise ty df cols k"
      by (auto simp: analyze_summary_def split: if_splits)
    have "group_rows df cols k \<noteq> []" using k by (rule group_rows_nonempty)
    then have c: "1 \<le> sr_count r" by (simp add: r summarise_fields(1) Suc_le_eq)
    then have "0 < sr_count (summarise ty df cols k)" by (simp add: r)
    then have "\<exists>w. sr_win_rate r = Fin w \<and> 0 \<le> w \<and> w \<le> 100"
      unfolding r by (rule win_rate_range)
    then show "1 \<le> sr_count r \<and> sr_wins r + sr_losses r \<le> sr_count r
     \<and> (\<exists>w. sr_win_rate r = Fin w \<and> 0 \<le> w \<and> w \<le> 100)"
      using c summarise_invariants[of ty df cols k] by (simp add: r)
  qed
  have ne: "df \<noteq> [] \<longrightarrow> analyze_summary ty df cols \<noteq> []"
  proof
    assume "df \<noteq> []"
    then have "set (group_keys df cols) \<noteq> {}" by (simp add: group_keys_set)
    then show "analyze_summary ty df cols \<noteq> []"
      using \<open>df \<noteq> []\<close> by (simp add: analyze_summary_def)
  qed
  show ?thesis using rows ne by blast
qed

theorem summary_row_invariants_witness:
  "1 \<le> sr_count (summarise Float64 [ex_lot ''USDJPY'' 500 1, ex_lot ''USDJPY'' 0 2, ex_lot ''GOLD'' (-3) 1]
            [ColInstrument] [''USDJPY''])
   \<and> sr_wins (summarise Float64 [ex_lot ''USDJPY'' 500 1, ex_lot ''USDJPY'' 0 2, ex_lot ''GOLD'' (-3) 1]
            [ColInstrument] [''USDJPY''])
     + sr_losses (summarise Float64 [ex_lot ''USDJPY'' 500 1, ex_lot ''USDJPY'' 0 2, ex_lot ''GOLD'' (-3) 1]
            [ColInstrument] [''USDJPY''])
     \<le> sr_count (summarise Float64 [ex_lot ''USDJPY'' 500 1, ex_lot ''USDJPY'' 0 2, ex_lot ''GOLD'' (-3) 1]
            [ColInstrument] [''USDJPY''])
   \<and> sr_win_rate (summarise Float64 [ex_lot ''USDJPY'' 500 1, ex_lot ''USDJPY'' 0 2, ex_lot ''GOLD'' (-3) 1]
            [ColInstrument] [''USDJPY'']) = Fin 50
   \<and> map sr_key (analyze_summary Float64 [ex_lot ''USDJPY'' 500 1, ex_lot ''USDJPY'' 0 2, ex_lot ''GOLD'' (-3) 1]
            [ColInstrument]) = [[''GOLD''], [''USDJPY'']]"
proof -
  let ?df = "[ex_lot ''USDJPY'' 500 1, ex_lot ''USDJPY'' 0 2, ex_lot ''GOLD'' (-3) 1]"
  let ?r = "summarise Float64 ?df [ColInstrument] [''USDJPY'']"
  have h: "?r \<in> set (analyze_summary Float64 ?df [ColInstrument])" by code_simp
  have v: "sr_win_rate ?r = Fin 50" by code_simp
  have ks: "map sr_key (analyze_summary Float64 ?df [ColInstrument]) = [[''GOLD''], [''USDJPY'']]"
    by code_simp
  have "1 \<le> sr_count ?r \<and> sr_wins ?r + sr_losses ?r \<le> sr_count ?r"
    using summary_row_invariants[of Float64 ?df "[ColInstrument]"] h by blast
  then show ?thesis using v ks by blast
qed

end
